theory Spec2Isabelle
  imports Complex_Main "HOL-Library.Char_ord" "HOL-Library.List_Lexorder" "HOL-Library.Sublist"
begin

section \<open>The arbitrage bot of \<^verbatim>\<open>main.py\<close>\<close>

text \<open>
  The development embeds the liquidity filter, the order-book store, the pairwise
  detector and the triangle detector of class \<^verbatim>\<open>ArbitrageBot\<close>.

  Conventions of the embedding:
  \<^item> The numbers that come in (prices, volumes, the configuration) are finite
    \<^verbatim>\<open>float\<close>s, or \<^verbatim>\<open>int\<close>s that a \<^verbatim>\<open>float\<close> holds exactly; they are kept as the
    rationals they denote (\<^typ>\<open>rat\<close>), and comparisons between them are exact. What
    the program computes from them with \<^verbatim>\<open>+ - * /\<close> is a \<^verbatim>\<open>float\<close>: an IEEE 754
    binary64 value, each operation rounded to the nearest, ties to even, with the
    infinities and NaN. A division by zero raises, as it does in Python. A decimal
    literal of the source denotes the double nearest to it.
  \<^item> A \<^verbatim>\<open>dict\<close> is an association list in insertion order, which is the order in
    which Python iterates it; a well-formed dict has distinct keys. The ticker input,
    which comes from outside, is read through \<open>dict_items\<close>, for which an entry
    whose key an earlier entry has does not exist.
  \<^item> An uncaught exception is a value of type \<open>error\<close>.
  \<^item> The calls of the logger that announce an opportunity or a triangle, and the call
    of \<^verbatim>\<open>execute_arbitrage\<close>, are recorded as events, in the order in which they
    happen. The other log lines are not represented.
  \<^item> The coroutines are embedded as the sequential functions they are between two
    \<^verbatim>\<open>await\<close>s of the network; the interleaving of tasks is not represented.
\<close>

subsection \<open>Python values and helpers\<close>

datatype error = ValueError | TypeError | ZeroDivisionError

subsection \<open>Floating point\<close>

text \<open>
  A Python \<^verbatim>\<open>float\<close> is a binary64 value: a finite one is the rational it denotes.
  The sign of zero is not kept: no comparison depends on it, and a division by either
  zero raises.
\<close>

datatype double = Finite rat | PlusInf | MinusInf | NaN

text \<open>\<^verbatim>\<open>int.bit_length\<close>: the number of binary digits of a positive integer.\<close>

function bit_length :: "int \<Rightarrow> nat" where
  "bit_length k = (if k \<le> 0 then 0 else Suc (bit_length (k div 2)))"
  by pat_completeness auto
termination
  by (relation "measure nat") auto

declare bit_length.simps [simp del]

text \<open>The exponent \<open>e\<close> of a positive rational: \<open>2 ^ e \<le> x < 2 ^ (e + 1)\<close>.\<close>

definition ilog2 :: "rat \<Rightarrow> int" where
  "ilog2 x = (if x \<ge> 1 then int (bit_length \<lfloor>x\<rfloor>) - 1
              else - int (bit_length (\<lceil>1 / x\<rceil> - 1)))"

definition pow2 :: "int \<Rightarrow> rat" where
  "pow2 e = (if e \<ge> 0 then 2 ^ nat e else 1 / 2 ^ nat (- e))"

definition round_half_even :: "rat \<Rightarrow> int" where
  "round_half_even q =
     (let f = \<lfloor>q\<rfloor>; r = q - of_int f
      in if r < 1 / 2 then f
         else if r > 1 / 2 then f + 1
         else if even f then f else f + 1)"

text \<open>The largest finite double, \<open>(2 ^ 53 - 1) * 2 ^ 971\<close>.\<close>

definition max_double :: rat where
  "max_double = (2 ^ 53 - 1) * 2 ^ 971"

text \<open>
  Rounding of an exact result to binary64: 53 significant bits at the exponent of the
  value, the exponent not below -1022 (below it the values are subnormal, spaced
  \<open>2 ^ (-1074)\<close>); the nearest multiple of the spacing, the even one at a tie; an
  infinity when that is beyond the largest finite double.
\<close>

definition round_double :: "rat \<Rightarrow> double" where
  "round_double x =
     (if x = 0 then Finite 0
      else let e = max (ilog2 \<bar>x\<bar>) (- 1022);
               ulp = pow2 (e - 52);
               y = of_int (round_half_even (\<bar>x\<bar> / ulp)) * ulp
           in if y > max_double then (if x > 0 then PlusInf else MinusInf)
              else Finite (if x > 0 then y else - y))"

text \<open>A decimal literal of the source, such as \<^verbatim>\<open>0.001\<close>: the double nearest to it.\<close>

definition float_literal :: "rat \<Rightarrow> rat" where
  "float_literal x = (case round_double x of Finite y \<Rightarrow> y | PlusInf \<Rightarrow> x | MinusInf \<Rightarrow> x | NaN \<Rightarrow> x)"

text \<open>\<^verbatim>\<open>a + b\<close>, \<^verbatim>\<open>a - b\<close> and \<^verbatim>\<open>a * b\<close> on floats.\<close>

fun float_add :: "double \<Rightarrow> double \<Rightarrow> double" where
  "float_add (Finite x) (Finite y) = round_double (x + y)"
| "float_add NaN b = NaN"
| "float_add a NaN = NaN"
| "float_add PlusInf MinusInf = NaN"
| "float_add MinusInf PlusInf = NaN"
| "float_add PlusInf b = PlusInf"
| "float_add a PlusInf = PlusInf"
| "float_add MinusInf b = MinusInf"
| "float_add a MinusInf = MinusInf"

fun float_neg :: "double \<Rightarrow> double" where
  "float_neg (Finite x) = Finite (- x)"
| "float_neg PlusInf = MinusInf"
| "float_neg MinusInf = PlusInf"
| "float_neg NaN = NaN"

definition float_sub :: "double \<Rightarrow> double \<Rightarrow> double" where
  "float_sub a b = float_add a (float_neg b)"

text \<open>The infinity of the sign of a rational that is not zero.\<close>

definition inf_of_sign :: "rat \<Rightarrow> double" where
  "inf_of_sign s = (if s > 0 then PlusInf else MinusInf)"

fun float_mul :: "double \<Rightarrow> double \<Rightarrow> double" where
  "float_mul (Finite x) (Finite y) = round_double (x * y)"
| "float_mul NaN b = NaN"
| "float_mul a NaN = NaN"
| "float_mul (Finite x) PlusInf = (if x = 0 then NaN else inf_of_sign x)"
| "float_mul (Finite x) MinusInf = (if x = 0 then NaN else inf_of_sign (- x))"
| "float_mul PlusInf (Finite y) = (if y = 0 then NaN else inf_of_sign y)"
| "float_mul MinusInf (Finite y) = (if y = 0 then NaN else inf_of_sign (- y))"
| "float_mul PlusInf PlusInf = PlusInf"
| "float_mul MinusInf MinusInf = PlusInf"
| "float_mul PlusInf MinusInf = MinusInf"
| "float_mul MinusInf PlusInf = MinusInf"

text \<open>
  \<^verbatim>\<open>a / b\<close> on floats: Python raises ZeroDivisionError on a divisor that is zero,
  whatever the dividend.
\<close>

fun float_truediv :: "double \<Rightarrow> double \<Rightarrow> error + double" where
  "float_truediv (Finite x) (Finite y) =
     (if y = 0 then Inl ZeroDivisionError else Inr (round_double (x / y)))"
| "float_truediv PlusInf (Finite y) =
     (if y = 0 then Inl ZeroDivisionError else Inr (inf_of_sign y))"
| "float_truediv MinusInf (Finite y) =
     (if y = 0 then Inl ZeroDivisionError else Inr (inf_of_sign (- y)))"
| "float_truediv NaN (Finite y) =
     (if y = 0 then Inl ZeroDivisionError else Inr NaN)"
| "float_truediv a NaN = Inr NaN"
| "float_truediv (Finite x) PlusInf = Inr (Finite 0)"
| "float_truediv (Finite x) MinusInf = Inr (Finite 0)"
| "float_truediv a PlusInf = Inr NaN"
| "float_truediv a MinusInf = Inr NaN"

text \<open>\<^verbatim>\<open>a < b\<close> and \<^verbatim>\<open>a <= b\<close> on floats: false when either side is NaN.\<close>

fun float_lt :: "double \<Rightarrow> double \<Rightarrow> bool" where
  "float_lt (Finite x) (Finite y) = (x < y)"
| "float_lt NaN b = False"
| "float_lt a NaN = False"
| "float_lt a MinusInf = False"
| "float_lt PlusInf b = False"
| "float_lt MinusInf b = True"
| "float_lt a PlusInf = True"

fun float_le :: "double \<Rightarrow> double \<Rightarrow> bool" where
  "float_le (Finite x) (Finite y) = (x \<le> y)"
| "float_le NaN b = False"
| "float_le a NaN = False"
| "float_le MinusInf b = True"
| "float_le a PlusInf = True"
| "float_le a MinusInf = False"
| "float_le PlusInf b = False"

text \<open>\<^verbatim>\<open>a > b\<close> and \<^verbatim>\<open>a >= b\<close>.\<close>

definition float_gt :: "double \<Rightarrow> double \<Rightarrow> bool" where
  "float_gt a b = float_lt b a"

definition float_ge :: "double \<Rightarrow> double \<Rightarrow> bool" where
  "float_ge a b = float_le b a"

subsection \<open>Other values and helpers\<close>

text \<open>
  The value of a ticker field: \<^verbatim>\<open>None\<close>, a number (\<^verbatim>\<open>int\<close>, \<^verbatim>\<open>float\<close>, and
  \<^verbatim>\<open>bool\<close>, which is an \<^verbatim>\<open>int\<close> for \<^verbatim>\<open>isinstance\<close>), or any other object, such
  as a string: it is no number, and comparing it with a number raises TypeError.
\<close>

datatype pyval = PNone | PNum rat | PObj string

type_synonym ticker = "(string \<times> pyval) list"

text \<open>\<^verbatim>\<open>t.get(key)\<close>: a missing key reads as \<^verbatim>\<open>None\<close>.\<close>

definition ticker_get :: "ticker \<Rightarrow> string \<Rightarrow> pyval" where
  "ticker_get t key = (case map_of t key of None \<Rightarrow> PNone | Some v \<Rightarrow> v)"

text \<open>\<^verbatim>\<open>d[k] = v\<close> on an insertion-ordered dict: an existing key keeps its place.\<close>

fun dict_set :: "'k \<Rightarrow> 'v \<Rightarrow> ('k \<times> 'v) list \<Rightarrow> ('k \<times> 'v) list" where
  "dict_set k v [] = [(k, v)]"
| "dict_set k v ((k', v') # kvs) =
     (if k' = k then (k, v) # kvs else (k', v') # dict_set k v kvs)"

text \<open>
  \<^verbatim>\<open>d.items()\<close>: the entries in order, one for each key. \<open>map_of d k\<close> is the
  lookup \<^verbatim>\<open>d[k]\<close> of the same dict.
\<close>

fun dict_items :: "('k \<times> 'v) list \<Rightarrow> ('k \<times> 'v) list" where
  "dict_items [] = []"
| "dict_items ((k, v) # kvs) = (k, v) # dict_items (filter (\<lambda>kv. fst kv \<noteq> k) kvs)"

text \<open>\<^verbatim>\<open>s.split(sep)\<close> for a separator of one character.\<close>

fun split_on :: "char \<Rightarrow> string \<Rightarrow> string list" where
  "split_on sep [] = [[]]"
| "split_on sep (x # xs) =
     (if x = sep then [] # split_on sep xs
      else (case split_on sep xs of
              [] \<Rightarrow> [[x]]
            | w # ws \<Rightarrow> (x # w) # ws))"

text \<open>\<^verbatim>\<open>s.add(x)\<close> on a set kept as a duplicate-free list.\<close>

definition set_add :: "'a \<Rightarrow> 'a list \<Rightarrow> 'a list" where
  "set_add x xs = (if x \<in> set xs then xs else xs @ [x])"

subsection \<open>Configuration and state\<close>

record bot_config =
  exchanges :: "string list"
  quote_currencies :: "string list"
  min_volume_usd :: rat
  max_spread_percent :: rat
  refresh_filter_minutes :: rat
  arbitrage_min_profit_percent :: rat
  trade_amount_btc :: rat
  log_level :: string

definition CONFIG :: bot_config where
  "CONFIG = \<lparr> exchanges = [''binance'', ''kraken'', ''coinbase''],
              quote_currencies = [''USDT'', ''USD'', ''BTC''],
              min_volume_usd = 1000000,
              max_spread_percent = float_literal (5 / 10),
              refresh_filter_minutes = 30,
              arbitrage_min_profit_percent = float_literal (2 / 10),
              trade_amount_btc = float_literal (1 / 100),
              log_level = ''INFO'' \<rparr>"

definition FEES :: "(string \<times> rat) list" where
  "FEES = [(''binance'', float_literal (1 / 1000)), (''kraken'', float_literal (2 / 1000)),
           (''coinbase'', float_literal (5 / 1000))]"

text \<open>\<^verbatim>\<open>FEES.get(name, 0.001)\<close>.\<close>

definition fee_of :: "string \<Rightarrow> rat" where
  "fee_of name = (case map_of FEES name of None \<Rightarrow> float_literal (1 / 1000) | Some f \<Rightarrow> f)"

text \<open>
  An order book as the exchange library delivers it: price levels \<open>(price, amount)\<close>,
  best first, and the time stamp of the snapshot. The program reads \<open>bids\<close> and
  \<open>asks\<close> only.
\<close>

record book =
  bids :: "(rat \<times> rat) list"
  asks :: "(rat \<times> rat) list"
  timestamp :: int

type_synonym books_of_exchange = "(string \<times> book) list"
type_synonym all_tickers = "(string \<times> (string \<times> ticker) list) list"
type_synonym filtered = "string \<rightharpoonup> string set"

record bot =
  config :: bot_config
  filtered_pairs :: filtered
  orderbooks :: "(string \<times> books_of_exchange) list"
  tickers :: all_tickers
  last_filter_time :: rat
  running :: bool

text \<open>\<^verbatim>\<open>d.get(key, {})\<close> and \<^verbatim>\<open>d.get(key, set())\<close>.\<close>

definition books_at :: "(string \<times> books_of_exchange) list \<Rightarrow> string \<Rightarrow> books_of_exchange" where
  "books_at obs exchange_name = (case map_of obs exchange_name of None \<Rightarrow> [] | Some d \<Rightarrow> d)"

definition pairs_at :: "filtered \<Rightarrow> string \<Rightarrow> string set" where
  "pairs_at f exchange_name = (case f exchange_name of None \<Rightarrow> {} | Some s \<Rightarrow> s)"

subsection \<open>Layer 1: the liquidity filter\<close>

text \<open>\<^verbatim>\<open>spread_pct = (ask - bid) / bid * 100\<close>, three float operations.\<close>

definition spread_pct :: "rat \<Rightarrow> rat \<Rightarrow> error + double" where
  "spread_pct bid ask =
     (case float_truediv (float_sub (Finite ask) (Finite bid)) (Finite bid) of
        Inl e \<Rightarrow> Inl e
      | Inr q \<Rightarrow> Inr (float_mul q (Finite 100)))"

text \<open>
  The body of the inner loop of \<^verbatim>\<open>filter_pairs_by_liquidity\<close>: \<open>Inr True\<close> when the
  symbol reaches \<^verbatim>\<open>filtered[exchange].add(symbol)\<close>, \<open>Inr False\<close> at a
  \<^verbatim>\<open>continue\<close>. Unpacking \<^verbatim>\<open>symbol.split('/')\<close> into two names raises ValueError
  unless there is exactly one slash, and \<^verbatim>\<open>bid <= 0\<close> raises TypeError on a value that
  is no number.
\<close>

definition passes_filters :: "bot_config \<Rightarrow> string \<Rightarrow> ticker \<Rightarrow> error + bool" where
  "passes_filters cfg symbol t =
     (if t = [] then Inr False
      else case ticker_get t ''quoteVolume'' of
          PNone \<Rightarrow> Inr False
        | PObj _ \<Rightarrow> Inr False
        | PNum quote_vol \<Rightarrow>
            if CHR ''/'' \<notin> set symbol then Inr False
            else (case split_on CHR ''/'' symbol of
                [base, quote] \<Rightarrow>
                  if quote \<notin> set (quote_currencies cfg) then Inr False
                  else if quote_vol < min_volume_usd cfg then Inr False
                  else (case ticker_get t ''bid'' of
                      PNone \<Rightarrow> Inr False
                    | PObj bo \<Rightarrow>
                        (case ticker_get t ''ask'' of
                           PNone \<Rightarrow> Inr False
                         | _ \<Rightarrow> Inl TypeError)
                    | PNum bid \<Rightarrow>
                        (case ticker_get t ''ask'' of
                           PNone \<Rightarrow> Inr False
                         | PObj ao \<Rightarrow> if bid \<le> 0 then Inr False else Inl TypeError
                         | PNum ask \<Rightarrow>
                             if bid \<le> 0 \<or> ask \<le> 0 then Inr False
                             else (case spread_pct bid ask of
                                 Inl e \<Rightarrow> Inl e
                               | Inr spread \<Rightarrow>
                                   if float_gt spread (Finite (max_spread_percent cfg))
                                   then Inr False
                                   else Inr True)))
              | _ \<Rightarrow> Inl ValueError))"

text \<open>\<^verbatim>\<open>filtered[exchange].add(symbol)\<close> on a \<^verbatim>\<open>defaultdict(set)\<close>.\<close>

definition add_symbol :: "filtered \<Rightarrow> string \<Rightarrow> string \<Rightarrow> filtered" where
  "add_symbol f exchange symbol = f(exchange \<mapsto> insert symbol (pairs_at f exchange))"

fun filter_symbols ::
  "bot_config \<Rightarrow> string \<Rightarrow> (string \<times> ticker) list \<Rightarrow> filtered \<Rightarrow> error + filtered" where
  "filter_symbols cfg exchange [] f = Inr f"
| "filter_symbols cfg exchange ((symbol, t) # rest) f =
     (case passes_filters cfg symbol t of
        Inl e \<Rightarrow> Inl e
      | Inr ok \<Rightarrow> filter_symbols cfg exchange rest
                    (if ok then add_symbol f exchange symbol else f))"

fun filter_exchanges :: "bot_config \<Rightarrow> all_tickers \<Rightarrow> filtered \<Rightarrow> error + filtered" where
  "filter_exchanges cfg [] f = Inr f"
| "filter_exchanges cfg ((exchange, tks) # rest) f =
     (case filter_symbols cfg exchange (dict_items tks) f of
        Inl e \<Rightarrow> Inl e
      | Inr f' \<Rightarrow> filter_exchanges cfg rest f')"

text \<open>
  The method receives the whole object \<^verbatim>\<open>self\<close>; it starts from an empty
  \<^verbatim>\<open>defaultdict(set)\<close> and returns it, assigning nothing to \<^verbatim>\<open>self\<close>.
\<close>

definition filter_pairs_by_liquidity :: "bot \<Rightarrow> all_tickers \<Rightarrow> error + filtered" where
  "filter_pairs_by_liquidity self tks =
     filter_exchanges (config self) (dict_items tks) Map.empty"

subsection \<open>Well-formed ticker input\<close>

text \<open>
  A ticker input is well formed when its dicts have distinct keys, every symbol has at
  most one slash, and the bid and the ask of every ticker are numbers or absent. On such
  an input the filter raises nothing.
\<close>

fun is_obj :: "pyval \<Rightarrow> bool" where
  "is_obj (PObj s) = True"
| "is_obj PNone = False"
| "is_obj (PNum x) = False"

definition well_formed_ticker :: "string \<Rightarrow> ticker \<Rightarrow> bool" where
  "well_formed_ticker symbol t =
     (count_list symbol CHR ''/'' \<le> 1
      \<and> \<not> is_obj (ticker_get t ''bid'') \<and> \<not> is_obj (ticker_get t ''ask''))"

definition well_formed_tickers :: "all_tickers \<Rightarrow> bool" where
  "well_formed_tickers tks =
     (distinct (map fst tks)
      \<and> list_all (\<lambda>kv. distinct (map fst (snd kv))
                      \<and> list_all (\<lambda>st. well_formed_ticker (fst st) (snd st)) (snd kv)) tks)"

subsection \<open>Layer 2: the order-book store\<close>

text \<open>
  \<^verbatim>\<open>self.orderbooks[exchange_name][symbol] = book\<close>, on a \<^verbatim>\<open>defaultdict(dict)\<close>:
  the dict of an exchange that has none yet is created empty.
\<close>

definition store_book ::
  "(string \<times> books_of_exchange) list \<Rightarrow> string \<Rightarrow> string \<Rightarrow> book
     \<Rightarrow> (string \<times> books_of_exchange) list" where
  "store_book obs exchange_name symbol b =
     dict_set exchange_name (dict_set symbol b (books_at obs exchange_name)) obs"

subsection \<open>Layer 3: the pairwise detector\<close>

text \<open>
  What the detectors do to the outside: the log line of a simple opportunity (symbol,
  buying exchange and price, selling exchange and price, net and gross percentage),
  the call of \<^verbatim>\<open>execute_arbitrage\<close> with its eight arguments, and the log line
  of a potential triangle.
\<close>

datatype event =
    LogOpportunity string string rat string rat double double
  | ExecuteArbitrage string string string string string rat rat rat
  | LogTriangle string string string string string string string

text \<open>A run: the events so far, and the exception that ended it, if one did.\<close>

type_synonym run = "event list \<times> error option"

text \<open>Sequencing: the second run happens only if the first one raised nothing.\<close>

definition then_run :: "run \<Rightarrow> run \<Rightarrow> run" where
  "then_run r1 r2 =
     (case snd r1 of
        Some e \<Rightarrow> r1
      | None \<Rightarrow> (fst r1 @ fst r2, snd r2))"

text \<open>The books of all exchanges that hold the symbol, in the order of the exchanges.\<close>

fun collect_books :: "(string \<times> books_of_exchange) list \<Rightarrow> string \<Rightarrow> (string \<times> book) list" where
  "collect_books [] symbol = []"
| "collect_books ((ex_name, ex_books) # rest) symbol =
     (case map_of ex_books symbol of
        None \<Rightarrow> collect_books rest symbol
      | Some b \<Rightarrow> (ex_name, b) # collect_books rest symbol)"

text \<open>\<^verbatim>\<open>profit_pct = (bid_a - ask_b) / ask_b * 100\<close>.\<close>

definition profit_pct_of :: "rat \<Rightarrow> rat \<Rightarrow> error + double" where
  "profit_pct_of bid_a ask_b =
     (case float_truediv (float_sub (Finite bid_a) (Finite ask_b)) (Finite ask_b) of
        Inl e \<Rightarrow> Inl e
      | Inr q \<Rightarrow> Inr (float_mul q (Finite 100)))"

text \<open>\<^verbatim>\<open>cost = ask_b * amount * (1 + fee_buy)\<close>.\<close>

definition cost_of :: "rat \<Rightarrow> rat \<Rightarrow> rat \<Rightarrow> double" where
  "cost_of ask_b amount fee_buy =
     float_mul (float_mul (Finite ask_b) (Finite amount)) (float_add (Finite 1) (Finite fee_buy))"

text \<open>\<^verbatim>\<open>revenue = bid_a * amount * (1 - fee_sell)\<close>.\<close>

definition revenue_of :: "rat \<Rightarrow> rat \<Rightarrow> rat \<Rightarrow> double" where
  "revenue_of bid_a amount fee_sell =
     float_mul (float_mul (Finite bid_a) (Finite amount)) (float_sub (Finite 1) (Finite fee_sell))"

text \<open>
  \<^verbatim>\<open>profit_net = revenue - cost\<close> and
  \<^verbatim>\<open>profit_net_pct = (profit_net / cost) * 100 if cost > 0 else 0\<close>.
\<close>

definition profit_net_pct_of :: "double \<Rightarrow> double \<Rightarrow> error + double" where
  "profit_net_pct_of revenue cost =
     (if float_gt cost (Finite 0)
      then (case float_truediv (float_sub revenue cost) cost of
              Inl e \<Rightarrow> Inl e
            | Inr q \<Rightarrow> Inr (float_mul q (Finite 100)))
      else Inr (Finite 0))"

text \<open>
  The body of the inner loop of \<^verbatim>\<open>detect_opportunities_for_symbol\<close>, for the book of
  \<open>ex_a\<close> and a later book of \<open>ex_b\<close>. The gross percentage divides by
  \<open>ask_b\<close>, which raises ZeroDivisionError when that price is zero.
\<close>

definition compare_books :: "bot_config \<Rightarrow> string \<Rightarrow> string \<times> book \<Rightarrow> string \<times> book \<Rightarrow> run" where
  "compare_books cfg symbol a b =
     (case a of (ex_a, book_a) \<Rightarrow> case b of (ex_b, book_b) \<Rightarrow>
       (case bids book_a of
          [] \<Rightarrow> ([], None)
        | (bid_a, qb) # bs \<Rightarrow>
           (case asks book_b of
              [] \<Rightarrow> ([], None)
            | (ask_b, qa) # as \<Rightarrow>
                if bid_a > ask_b then
                  (case profit_pct_of bid_a ask_b of
                     Inl e \<Rightarrow> ([], Some e)
                   | Inr profit_pct \<Rightarrow>
                      (let fee_buy = fee_of ex_b;
                           fee_sell = fee_of ex_a;
                           amount = trade_amount_btc cfg;
                           cost = cost_of ask_b amount fee_buy;
                           revenue = revenue_of bid_a amount fee_sell
                       in case profit_net_pct_of revenue cost of
                            Inl e \<Rightarrow> ([], Some e)
                          | Inr profit_net_pct \<Rightarrow>
                              if float_ge profit_net_pct (Finite (arbitrage_min_profit_percent cfg))
                              then ([LogOpportunity symbol ex_b ask_b ex_a bid_a
                                       profit_net_pct profit_pct,
                                     ExecuteArbitrage ex_b ex_a symbol ''buy'' ''sell''
                                       ask_b bid_a amount],
                                    None)
                              else ([], None)))
                else ([], None))))"

text \<open>\<^verbatim>\<open>for j, (ex_b, book_b) in enumerate(books[i+1:], start=i+1)\<close>.\<close>

fun inner_loop :: "bot_config \<Rightarrow> string \<Rightarrow> string \<times> book \<Rightarrow> (string \<times> book) list \<Rightarrow> run" where
  "inner_loop cfg symbol a [] = ([], None)"
| "inner_loop cfg symbol a (b # later) =
     then_run (compare_books cfg symbol a b) (inner_loop cfg symbol a later)"

text \<open>\<^verbatim>\<open>for i, (ex_a, book_a) in enumerate(books)\<close>.\<close>

fun outer_loop :: "bot_config \<Rightarrow> string \<Rightarrow> (string \<times> book) list \<Rightarrow> run" where
  "outer_loop cfg symbol [] = ([], None)"
| "outer_loop cfg symbol (a # later) =
     then_run (inner_loop cfg symbol a later) (outer_loop cfg symbol later)"

text \<open>
  The detector returns the object as it leaves it, the events and the exception, if any.
  No statement of the method assigns to \<^verbatim>\<open>self\<close>.
\<close>

definition detect_opportunities_for_symbol :: "bot \<Rightarrow> string \<Rightarrow> bot \<times> run" where
  "detect_opportunities_for_symbol self symbol =
     (let books = collect_books (orderbooks self) symbol
      in if length books < 2 then (self, ([], None))
         else (self, outer_loop (config self) symbol books))"

text \<open>
  One turn of the loop of \<^verbatim>\<open>_watch_book\<close> in which the feed delivers \<open>b\<close>: the
  book is stored, then the detection runs on the new state. An exception of the
  detection is caught by the loop, which goes on.
\<close>

definition watch_book_step :: "bot \<Rightarrow> string \<Rightarrow> string \<Rightarrow> book \<Rightarrow> bot \<times> event list" where
  "watch_book_step self exchange_name symbol b =
     (let self1 = self\<lparr>orderbooks := store_book (orderbooks self) exchange_name symbol b\<rparr>;
          (self2, r) = detect_opportunities_for_symbol self1 symbol
      in (self2, fst r))"

text \<open>The stored book of a key, \<^verbatim>\<open>self.orderbooks[exchange_name].get(symbol)\<close>.\<close>

definition stored_book :: "bot \<Rightarrow> string \<Rightarrow> string \<Rightarrow> book option" where
  "stored_book self exchange_name symbol = map_of (books_at (orderbooks self) exchange_name) symbol"

subsection \<open>Layer 3: the triangle detector\<close>

definition common_coins :: "string list" where
  "common_coins = [''BTC'', ''ETH'', ''USDT'', ''USD'', ''BNB'', ''SOL'', ''ADA'']"

text \<open>
  The first loop of \<^verbatim>\<open>detect_triangular_opportunities\<close>, over the symbols of the
  exchange: the set \<^verbatim>\<open>coins\<close>. The loop fills \<^verbatim>\<open>pair_to_coin\<close> and
  \<^verbatim>\<open>coin_to_pairs\<close> too, which nothing reads afterwards.
\<close>

fun collect_coins :: "string list \<Rightarrow> string list \<Rightarrow> error + string list" where
  "collect_coins [] coins = Inr coins"
| "collect_coins (symbol # rest) coins =
     (if CHR ''/'' \<in> set symbol then
        (case split_on CHR ''/'' symbol of
           [base, quote] \<Rightarrow> collect_coins rest (set_add quote (set_add base coins))
         | _ \<Rightarrow> Inl ValueError)
      else collect_coins rest coins)"

fun find_pair_in :: "string list \<Rightarrow> string \<Rightarrow> string \<Rightarrow> error + string option" where
  "find_pair_in [] coin1 coin2 = Inr None"
| "find_pair_in (symbol # rest) coin1 coin2 =
     (if CHR ''/'' \<in> set symbol then
        (case split_on CHR ''/'' symbol of
           [b, q] \<Rightarrow>
             if (b = coin1 \<and> q = coin2) \<or> (b = coin2 \<and> q = coin1) then Inr (Some symbol)
             else find_pair_in rest coin1 coin2
         | _ \<Rightarrow> Inl ValueError)
      else find_pair_in rest coin1 coin2)"

text \<open>
  \<^verbatim>\<open>_find_pair\<close>. Its only caller has returned before when the exchange holds fewer
  than three books, so the \<^verbatim>\<open>defaultdict\<close> never creates an entry here.
\<close>

definition find_pair :: "bot \<Rightarrow> string \<Rightarrow> string \<Rightarrow> string \<Rightarrow> error + string option" where
  "find_pair self exchange_name coin1 coin2 =
     find_pair_in (map fst (books_at (orderbooks self) exchange_name)) coin1 coin2"

text \<open>
  \<^verbatim>\<open>_evaluate_triangle\<close>: it looks the three books up, returns when one is missing,
  and otherwise logs the potential triangle; the rest of its body is comments. A book
  that is present is a dict with keys, hence true for \<^verbatim>\<open>not\<close>.
\<close>

definition evaluate_triangle ::
  "bot \<Rightarrow> string \<Rightarrow> string \<Rightarrow> string \<Rightarrow> string \<Rightarrow> string \<Rightarrow> string \<Rightarrow> string \<Rightarrow> event list" where
  "evaluate_triangle self exchange a b c pair_ab pair_bc pair_ca =
     (let ex_books = books_at (orderbooks self) exchange
      in case map_of ex_books pair_ab of
           None \<Rightarrow> []
         | Some book_ab \<Rightarrow>
            (case map_of ex_books pair_bc of
               None \<Rightarrow> []
             | Some book_bc \<Rightarrow>
                (case map_of ex_books pair_ca of
                   None \<Rightarrow> []
                 | Some book_ca \<Rightarrow> [LogTriangle exchange a b c pair_ab pair_bc pair_ca])))"

text \<open>
  The body of the innermost loop: the three searches, then the test
  \<^verbatim>\<open>if pair_ab and pair_bc and pair_ca\<close>, which a missing pair and an empty name fail.
\<close>

definition triangle_body :: "bot \<Rightarrow> string \<Rightarrow> string \<Rightarrow> string \<Rightarrow> string \<Rightarrow> run" where
  "triangle_body self exchange_name coin_a coin_b coin_c =
     (case find_pair self exchange_name coin_a coin_b of
        Inl e \<Rightarrow> ([], Some e)
      | Inr pair_ab \<Rightarrow>
         (case find_pair self exchange_name coin_b coin_c of
            Inl e \<Rightarrow> ([], Some e)
          | Inr pair_bc \<Rightarrow>
             (case find_pair self exchange_name coin_c coin_a of
                Inl e \<Rightarrow> ([], Some e)
              | Inr pair_ca \<Rightarrow>
                 (case (pair_ab, pair_bc, pair_ca) of
                    (Some ab, Some bc, Some ca) \<Rightarrow>
                      if ab \<noteq> [] \<and> bc \<noteq> [] \<and> ca \<noteq> []
                      then (evaluate_triangle self exchange_name coin_a coin_b coin_c ab bc ca, None)
                      else ([], None)
                  | _ \<Rightarrow> ([], None)))))"

text \<open>
  The three loops over \<^verbatim>\<open>coins\<close>. Python iterates a set in an order of its own; the
  loops below take the elements as a list, and the results on triples are proved for
  every duplicate-free list.
\<close>

fun loop_c :: "bot \<Rightarrow> string \<Rightarrow> string \<Rightarrow> string \<Rightarrow> string list \<Rightarrow> run" where
  "loop_c self exchange_name coin_a coin_b [] = ([], None)"
| "loop_c self exchange_name coin_a coin_b (coin_c # rest) =
     (if coin_c \<le> coin_b then loop_c self exchange_name coin_a coin_b rest
      else then_run (triangle_body self exchange_name coin_a coin_b coin_c)
                    (loop_c self exchange_name coin_a coin_b rest))"

fun loop_b :: "bot \<Rightarrow> string \<Rightarrow> string list \<Rightarrow> string \<Rightarrow> string list \<Rightarrow> run" where
  "loop_b self exchange_name coins coin_a [] = ([], None)"
| "loop_b self exchange_name coins coin_a (coin_b # rest) =
     (if coin_a \<ge> coin_b then loop_b self exchange_name coins coin_a rest
      else then_run (loop_c self exchange_name coin_a coin_b coins)
                    (loop_b self exchange_name coins coin_a rest))"

fun loop_a :: "bot \<Rightarrow> string \<Rightarrow> string list \<Rightarrow> string list \<Rightarrow> run" where
  "loop_a self exchange_name coins [] = ([], None)"
| "loop_a self exchange_name coins (coin_a # rest) =
     then_run (loop_b self exchange_name coins coin_a coins)
              (loop_a self exchange_name coins rest)"

text \<open>\<^verbatim>\<open>coins.intersection(common_coins)\<close>.\<close>

definition restrict_coins :: "string list \<Rightarrow> string list" where
  "restrict_coins coins = filter (\<lambda>c. c \<in> set common_coins) coins"

definition detect_triangular_opportunities :: "bot \<Rightarrow> string \<Rightarrow> bot \<times> run" where
  "detect_triangular_opportunities self exchange_name =
     (let ex_books = books_at (orderbooks self) exchange_name
      in if length ex_books < 3 then (self, ([], None))
         else (case collect_coins (map fst ex_books) [] of
                 Inl e \<Rightarrow> (self, ([], Some e))
               | Inr all_coins \<Rightarrow>
                   (let coins = restrict_coins all_coins
                    in (self, loop_a self exchange_name coins coins))))"

subsection \<open>Reading the events\<close>

text \<open>The triple of coins of a triangle line, and the events that are an opportunity.\<close>

fun triple_of :: "event \<Rightarrow> (string \<times> string \<times> string) list" where
  "triple_of (LogTriangle exchange a b c pair_ab pair_bc pair_ca) = [(a, b, c)]"
| "triple_of (LogOpportunity symbol ex_b ask_b ex_a bid_a net gross) = []"
| "triple_of (ExecuteArbitrage ex_b ex_a symbol side_buy side_sell ask_b bid_a amount) = []"

definition triples_of :: "event list \<Rightarrow> (string \<times> string \<times> string) list" where
  "triples_of evs = concat (map triple_of evs)"

fun is_opportunity :: "event \<Rightarrow> bool" where
  "is_opportunity (LogTriangle exchange a b c pair_ab pair_bc pair_ca) = False"
| "is_opportunity (LogOpportunity symbol ex_b ask_b ex_a bid_a net gross) = True"
| "is_opportunity (ExecuteArbitrage ex_b ex_a symbol side_buy side_sell ask_b bid_a amount) = True"

text \<open>
  The triples a < b < c of a list of coins, in the order in which the three loops reach
  them, and the set of the coins of a triple.
\<close>

definition ordered_triples :: "string list \<Rightarrow> (string \<times> string \<times> string) list" where
  "ordered_triples coins =
     concat (map (\<lambda>a. concat (map (\<lambda>b. map (\<lambda>c. (a, b, c)) (filter (\<lambda>c. b < c) coins))
                                    (filter (\<lambda>b. a < b) coins)))
                 coins)"

definition coin_set :: "string \<times> string \<times> string \<Rightarrow> string set" where
  "coin_set t = (case t of (a, b, c) \<Rightarrow> {a, b, c})"

text \<open>The currencies of an exchange: the bases and quotes of its symbols with a slash.\<close>

definition coins_of_symbol :: "string \<Rightarrow> string list" where
  "coins_of_symbol symbol =
     (case split_on CHR ''/'' symbol of
        [base, quote] \<Rightarrow> [base, quote]
      | _ \<Rightarrow> [])"

definition venue_coins :: "bot \<Rightarrow> string \<Rightarrow> string set" where
  "venue_coins self exchange_name =
     set (concat (map (\<lambda>kv. coins_of_symbol (fst kv)) (books_at (orderbooks self) exchange_name)))"

subsection \<open>The specification's rule for a triangle\<close>

text \<open>
  Section 4.4 of the specification, in its words, for comparison with
  \<open>evaluate_triangle\<close>: across the edge X-Y the factor from X is the best bid of the
  edge when X is its base currency and one over the best ask when X is its quote
  currency; the multiplier is the product of the three factors reduced by the three
  fees; the net percentage is (multiplier - 1) * 100 minus the cumulative fee
  percentage; an opportunity is emitted iff it reaches the minimum.
\<close>

definition spec_edge_factor :: "bot \<Rightarrow> string \<Rightarrow> string \<Rightarrow> string \<Rightarrow> rat option" where
  "spec_edge_factor self exchange_name x y =
     (let ex_books = books_at (orderbooks self) exchange_name
      in case map_of ex_books (x @ ''/'' @ y) of
           Some bk \<Rightarrow> (case bids bk of [] \<Rightarrow> None | (p, q) # r \<Rightarrow> Some p)
         | None \<Rightarrow>
            (case map_of ex_books (y @ ''/'' @ x) of
               Some bk \<Rightarrow> (case asks bk of [] \<Rightarrow> None | (p, q) # r \<Rightarrow> Some (1 / p))
             | None \<Rightarrow> None))"

definition spec_triangle_net_pct :: "bot \<Rightarrow> string \<Rightarrow> string \<Rightarrow> string \<Rightarrow> string \<Rightarrow> rat option" where
  "spec_triangle_net_pct self exchange_name a b c =
     (case (spec_edge_factor self exchange_name a b,
            spec_edge_factor self exchange_name b c,
            spec_edge_factor self exchange_name c a) of
        (Some f_ab, Some f_bc, Some f_ca) \<Rightarrow>
          (let fee = fee_of exchange_name;
               multiplier = f_ab * f_bc * f_ca * (1 - fee) * (1 - fee) * (1 - fee)
           in Some ((multiplier - 1) * 100 - 3 * fee * 100))
      | _ \<Rightarrow> None)"

definition spec_triangle_emits :: "bot \<Rightarrow> string \<Rightarrow> string \<Rightarrow> string \<Rightarrow> string \<Rightarrow> bool" where
  "spec_triangle_emits self exchange_name a b c =
     (case spec_triangle_net_pct self exchange_name a b c of
        None \<Rightarrow> False
      | Some net \<Rightarrow> net \<ge> arbitrage_min_profit_percent (config self))"

subsection \<open>Example states\<close>

text \<open>
  Books with one price level on each side, and a bot with the shipped configuration,
  a chosen minimum profit, given as the source would write it, and chosen order books.
\<close>

definition one_level_book :: "rat \<Rightarrow> rat \<Rightarrow> int \<Rightarrow> book" where
  "one_level_book bid ask ts = \<lparr>bids = [(bid, 1)], asks = [(ask, 1)], timestamp = ts\<rparr>"

definition bot_with :: "rat \<Rightarrow> (string \<times> books_of_exchange) list \<Rightarrow> bot" where
  "bot_with min_profit obs =
     \<lparr>config = CONFIG\<lparr>arbitrage_min_profit_percent := float_literal min_profit\<rparr>,
      filtered_pairs = Map.empty, orderbooks = obs, tickers = [],
      last_filter_time = 0, running = True\<rparr>"

text \<open>Venue A bids 101 and venue B asks 100; neither name has an entry in \<open>FEES\<close>.\<close>

definition example_pairwise_books :: "(string \<times> books_of_exchange) list" where
  "example_pairwise_books =
     [(''A'', [(''BTC/USDT'', one_level_book 101 102 1)]),
      (''B'', [(''BTC/USDT'', one_level_book 99 100 1)])]"

text \<open>The exchange stored second bids 110, far above the ask 100.5 of the first.\<close>

definition example_reverse_books :: "(string \<times> books_of_exchange) list" where
  "example_reverse_books =
     [(''binance'', [(''BTC/USDT'', one_level_book 100 (201 / 2) 1)]),
      (''kraken'', [(''BTC/USDT'', one_level_book 110 111 1)])]"

text \<open>Venue A bids 1 and venue B asks 0.\<close>

definition example_zero_ask_books :: "(string \<times> books_of_exchange) list" where
  "example_zero_ask_books =
     [(''A'', [(''BTC/USDT'', one_level_book 1 2 1)]),
      (''B'', [(''BTC/USDT'', one_level_book 0 0 1)])]"

text \<open>
  Two pairs of prices at which the rounding decides: the net percentage is
  0.2000000000000004 in doubles at the first and 0.19999999999999846 at the second,
  against a minimum of 0.2, and the exact quotients lie on the other side of it.
\<close>

definition example_rounding_up_books :: "(string \<times> books_of_exchange) list" where
  "example_rounding_up_books =
     [(''A'', [(''BTC/USDT'', one_level_book 14376359995 14376359996 1)]),
      (''B'', [(''BTC/USDT'', one_level_book 14318998002 14318998003 1)])]"

definition example_rounding_down_books :: "(string \<times> books_of_exchange) list" where
  "example_rounding_down_books =
     [(''A'', [(''BTC/USDT'', one_level_book 1838837 1838838 1)]),
      (''B'', [(''BTC/USDT'', one_level_book 1831499 1831500 1)])]"

text \<open>One exchange on which BTC, ETH, USDT and back to BTC multiplies by 1.1.\<close>

definition example_triangle_books :: "(string \<times> books_of_exchange) list" where
  "example_triangle_books =
     [(''binance'', [(''BTC/USDT'', one_level_book 31990 32000 1),
                     (''ETH/BTC'', one_level_book (63 / 1024) (1 / 16) 1),
                     (''ETH/USDT'', one_level_book 2200 2201 1)])]"

text \<open>One exchange with one ticker for BTC/USDT, of bid 100 and a chosen volume and ask.\<close>

text \<open>A bot with the shipped configuration and a chosen maximum spread.\<close>

definition bot_with_spread :: "rat \<Rightarrow> bot" where
  "bot_with_spread max_spread =
     \<lparr>config = CONFIG\<lparr>max_spread_percent := float_literal max_spread\<rparr>,
      filtered_pairs = Map.empty, orderbooks = [], tickers = [],
      last_filter_time = 0, running = True\<rparr>"

definition example_ticker_of :: "rat \<Rightarrow> rat \<Rightarrow> rat \<Rightarrow> all_tickers" where
  "example_ticker_of vol bid ask =
     [(''binance'', [(''BTC/USDT'', [(''quoteVolume'', PNum vol), (''bid'', PNum bid),
                                     (''ask'', PNum ask)])])]"

definition example_tickers :: "rat \<Rightarrow> rat \<Rightarrow> all_tickers" where
  "example_tickers vol ask =
     [(''binance'', [(''BTC/USDT'', [(''quoteVolume'', PNum vol), (''bid'', PNum 100),
                                     (''ask'', PNum ask)])])]"

section \<open>Properties\<close>

subsection \<open>Floating point at the numbers of the source\<close>

text \<open>
  The simplifier computes a rounding from the definitions; each value below is the
  one that Python prints for the same expression.
\<close>

lemma floor_rat_numeral: "\<lfloor>numeral a / numeral b :: rat\<rfloor> = numeral a div numeral b"
  by (metis floor_divide_of_int_eq of_int_numeral)

lemma ceiling_rat_numeral:
  "\<lceil>numeral a / numeral b :: rat\<rceil> = - (- numeral a div numeral b)"
  by (metis ceiling_divide_eq_div of_int_numeral)

lemma floor_rat_one_divide: "\<lfloor>1 / numeral b :: rat\<rfloor> = 1 div numeral b"
  by (metis floor_divide_of_int_eq of_int_1 of_int_numeral)

lemmas round_eval = round_double_def ilog2_def pow2_def round_half_even_def max_double_def
  bit_length.simps Let_def floor_rat_numeral ceiling_rat_numeral floor_rat_one_divide

text \<open>
  The rounding at its edges: a tie goes to the even neighbour, a third is rounded on
  either side of zero, the subnormal values are spaced \<open>2 ^ (-1074)\<close>, and the first
  value that rounds to infinity is \<open>2 ^ 1024 - 2 ^ 970\<close>.
\<close>

lemma round_double_checks:
  "round_double (2 ^ 53 + 1) = Finite (2 ^ 53)"
  "round_double (2 ^ 53 + 3) = Finite (2 ^ 53 + 4)"
  "round_double (1 / 3) = Finite (6004799503160661 / 2 ^ 54)"
  "round_double (- (1 / 3)) = Finite (- (6004799503160661 / 2 ^ 54))"
  "round_double (1 / 10) = Finite (3602879701896397 / 2 ^ 55)"
  "round_double (3 / 2 ^ 1075) = Finite (1 / 2 ^ 1073)"
  "round_double (1 / 2 ^ 1075) = Finite 0"
  "round_double (2 ^ 1024 - 2 ^ 970 - 1) = Finite max_double"
  "round_double (2 ^ 1024 - 2 ^ 970) = PlusInf"
  by (simp_all add: round_eval)

lemmas float_eval = round_eval float_sub_def float_gt_def float_ge_def inf_of_sign_def

lemma float_literal_values:
  "float_literal (1 / 100) = 5764607523034235 / 2 ^ 59"
  "float_literal (1 / 1000) = 1152921504606847 / 2 ^ 60"
  "float_literal (2 / 1000) = 1152921504606847 / 2 ^ 59"
  "float_literal (5 / 1000) = 5764607523034235 / 2 ^ 60"
  "float_literal (2 / 10) = 3602879701896397 / 2 ^ 54"
  "float_literal (5 / 10) = 1 / 2"
  "float_literal (1001 / 1000) = 2254051613498933 / 2 ^ 51"
  "float_literal (100899 / 100000) = 4544086988020557 / 2 ^ 52"
  "float_literal (799 / 1000) = 7196752204538053 / 2 ^ 53"
  "float_literal 1 = 1"
  "float_literal 7 = 7"
  by (simp_all add: float_literal_def round_eval)

text \<open>The same literals as the simplifier writes them.\<close>

lemma float_literal_normal:
  "float_literal (1 / 500) = 1152921504606847 / 2 ^ 59"
  "float_literal (1 / 200) = 5764607523034235 / 2 ^ 60"
  "float_literal (1 / 5) = 3602879701896397 / 2 ^ 54"
  "float_literal (1 / 2) = 1 / 2"
  by (simp_all add: float_literal_def round_eval)

lemma fee_of_values:
  "fee_of ''A'' = 1152921504606847 / 2 ^ 60"
  "fee_of ''B'' = 1152921504606847 / 2 ^ 60"
  "fee_of ''binance'' = 1152921504606847 / 2 ^ 60"
  "fee_of ''kraken'' = 1152921504606847 / 2 ^ 59"
  by (simp_all add: fee_of_def FEES_def float_literal_values float_literal_normal)

lemma config_values:
  "trade_amount_btc CONFIG = 5764607523034235 / 2 ^ 59"
  "arbitrage_min_profit_percent CONFIG = 3602879701896397 / 2 ^ 54"
  "max_spread_percent CONFIG = 1 / 2"
  "min_volume_usd CONFIG = 1000000"
  by (simp_all add: CONFIG_def float_literal_values float_literal_normal)

lemma bot_with_config:
  "trade_amount_btc (config (bot_with m obs)) = 5764607523034235 / 2 ^ 59"
  "arbitrage_min_profit_percent (config (bot_with m obs)) = float_literal m"
  "max_spread_percent (config (bot_with m obs)) = 1 / 2"
  "min_volume_usd (config (bot_with m obs)) = 1000000"
  "quote_currencies (config (bot_with m obs)) = [''USDT'', ''USD'', ''BTC'']"
  "orderbooks (bot_with m obs) = obs"
  by (simp_all add: bot_with_def CONFIG_def float_literal_values float_literal_normal)

subsection \<open>The order-book store\<close>

lemma map_of_dict_set_same: "map_of (dict_set k v kvs) k = Some v"
  by (induction kvs) auto

lemma map_of_dict_set_other: "k' \<noteq> k \<Longrightarrow> map_of (dict_set k v kvs) k' = map_of kvs k'"
  by (induction kvs) auto

lemma books_at_store_book_same:
  "books_at (store_book obs exchange_name symbol b) exchange_name =
     dict_set symbol b (books_at obs exchange_name)"
  by (simp add: books_at_def store_book_def map_of_dict_set_same)

lemma detect_keeps_state: "fst (detect_opportunities_for_symbol self symbol) = self"
  by (simp add: detect_opportunities_for_symbol_def Let_def)

lemma watch_book_step_state:
  "fst (watch_book_step self exchange_name symbol b) =
     self\<lparr>orderbooks := store_book (orderbooks self) exchange_name symbol b\<rparr>"
  using detect_keeps_state
    [of "self\<lparr>orderbooks := store_book (orderbooks self) exchange_name symbol b\<rparr>" symbol]
  by (simp add: watch_book_step_def Let_def split_beta)

lemma stored_book_watch_book_step:
  "stored_book (fst (watch_book_step self exchange_name symbol b)) exchange_name symbol = Some b"
  by (simp add: watch_book_step_state stored_book_def books_at_store_book_same
        map_of_dict_set_same)

text \<open>
  Claim C3 says that an update replaces the stored snapshot only if the incoming one
  is not older. The code compares nothing: on a key that holds a book of time stamp 1,
  the update with a book of time stamp 0 stores the older book.
\<close>

theorem C3_counterexample:
  "map_option timestamp
      (stored_book (bot_with (2 / 10) example_pairwise_books) ''A'' ''BTC/USDT'') = Some 1
   \<and> timestamp (one_level_book 101 102 0) = 0
   \<and> map_option timestamp
      (stored_book (fst (watch_book_step (bot_with (2 / 10) example_pairwise_books)
                           ''A'' ''BTC/USDT'' (one_level_book 101 102 0)))
         ''A'' ''BTC/USDT'') = Some 0"
proof -
  have before: "map_option timestamp
      (stored_book (bot_with (2 / 10) example_pairwise_books) ''A'' ''BTC/USDT'') = Some 1"
    by (simp add: stored_book_def books_at_def bot_with_def example_pairwise_books_def
          one_level_book_def)
  have new: "timestamp (one_level_book 101 102 0) = 0"
    by (simp add: one_level_book_def)
  show ?thesis
    using before new by (simp add: stored_book_watch_book_step)
qed

text \<open>
  Claim C3, amended: for every key, an update replaces the stored snapshot by the
  incoming one, whatever the age of either; the stored snapshot is the one received
  last.
\<close>

theorem C3_update_always_replaces:
  "stored_book (fst (watch_book_step self exchange_name symbol b)) exchange_name symbol = Some b"
  by (rule stored_book_watch_book_step)

subsection \<open>The pairwise detector\<close>

lemma length_collect_books:
  "length (collect_books obs symbol) =
     length (filter (\<lambda>kv. symbol \<in> fst ` set (snd kv)) obs)"
  by (induction obs symbol rule: collect_books.induct)
     (auto split: option.splits simp: map_of_eq_None_iff weak_map_of_SomeI dest: map_of_SomeD
       intro: rev_image_eqI)

text \<open>
  Claim C9: when fewer than two exchanges hold a book for the symbol, the pairwise
  detector returns the state as it was, with no event (no opportunity line, no call of
  the execution) and no exception.
\<close>

theorem C9_fewer_than_two_no_effect:
  "length (filter (\<lambda>kv. symbol \<in> fst ` set (snd kv)) (orderbooks self)) < 2 \<Longrightarrow>
     detect_opportunities_for_symbol self symbol = (self, ([], None))"
  by (simp add: detect_opportunities_for_symbol_def length_collect_books)

theorem C9_witness:
  "length (filter (\<lambda>kv. ''ETH/USDT'' \<in> fst ` set (snd kv))
             (orderbooks (bot_with (2 / 10) example_triangle_books))) < 2
   \<and> detect_opportunities_for_symbol (bot_with (2 / 10) example_triangle_books) ''ETH/USDT''
       = (bot_with (2 / 10) example_triangle_books, ([], None))"
proof -
  have h: "length (filter (\<lambda>kv. ''ETH/USDT'' \<in> fst ` set (snd kv))
             (orderbooks (bot_with (2 / 10) example_triangle_books))) < 2"
    by (simp add: bot_with_def example_triangle_books_def)
  show ?thesis using h C9_fewer_than_two_no_effect [OF h] by simp
qed

text \<open>The two percentages of a comparison: when they exist.\<close>

lemma float_truediv_zero: "float_truediv a (Finite 0) = Inl ZeroDivisionError"
  by (cases a) simp_all

lemma float_truediv_nonzero: "y \<noteq> 0 \<Longrightarrow> \<exists>q. float_truediv a (Finite y) = Inr q"
  by (cases a) simp_all

lemma profit_pct_of_zero: "profit_pct_of bid_a 0 = Inl ZeroDivisionError"
  by (simp add: profit_pct_of_def float_truediv_zero)

lemma profit_pct_of_nonzero: "ask_b \<noteq> 0 \<Longrightarrow> \<exists>gross. profit_pct_of bid_a ask_b = Inr gross"
  using float_truediv_nonzero [of ask_b "float_sub (Finite bid_a) (Finite ask_b)"]
  by (auto simp: profit_pct_of_def)

lemma profit_net_pct_of_returns: "\<exists>net. profit_net_pct_of revenue cost = Inr net"
proof (cases "float_gt cost (Finite 0)")
  case False
  then show ?thesis by (simp add: profit_net_pct_of_def)
next
  case True
  then have "\<exists>q. float_truediv (float_sub revenue cost) cost = Inr q"
    by (cases cost; cases "float_sub revenue cost") (simp_all add: float_gt_def)
  with True show ?thesis by (auto simp: profit_net_pct_of_def)
qed

lemma profit_net_pct_of_formula:
  "profit_net_pct_of revenue cost = Inr net \<Longrightarrow>
     (if float_gt cost (Finite 0)
      then \<exists>q. float_truediv (float_sub revenue cost) cost = Inr q \<and> net = float_mul q (Finite 100)
      else net = Finite 0)"
  by (auto simp: profit_net_pct_of_def split: if_splits sum.splits)

text \<open>
  Where the best bid of A exceeds a best ask of B that is not zero, the comparison
  emits iff the net percentage, computed in doubles by the three formulas, reaches
  the minimum.
\<close>

lemma pairwise_net_profit:
  assumes "bids book_a = (bid_a, qb) # bs" and "asks book_b = (ask_b, qa) # as"
    and "bid_a > ask_b" and "ask_b \<noteq> 0"
    and "cost = float_mul (float_mul (Finite ask_b) (Finite (trade_amount_btc cfg)))
                   (float_add (Finite 1) (Finite (fee_of ex_b)))"
    and "revenue = float_mul (float_mul (Finite bid_a) (Finite (trade_amount_btc cfg)))
                      (float_sub (Finite 1) (Finite (fee_of ex_a)))"
  shows "\<exists>gross net.
           profit_pct_of bid_a ask_b = Inr gross
         \<and> (if float_gt cost (Finite 0)
             then \<exists>q. float_truediv (float_sub revenue cost) cost = Inr q
                      \<and> net = float_mul q (Finite 100)
             else net = Finite 0)
         \<and> compare_books cfg symbol (ex_a, book_a) (ex_b, book_b) =
             (if float_ge net (Finite (arbitrage_min_profit_percent cfg))
              then ([LogOpportunity symbol ex_b ask_b ex_a bid_a net gross,
                     ExecuteArbitrage ex_b ex_a symbol ''buy'' ''sell'' ask_b bid_a
                       (trade_amount_btc cfg)], None)
              else ([], None))"
proof -
  obtain gross where g: "profit_pct_of bid_a ask_b = Inr gross"
    using profit_pct_of_nonzero [OF assms(4)] by blast
  have c: "cost_of ask_b (trade_amount_btc cfg) (fee_of ex_b) = cost"
    and r: "revenue_of bid_a (trade_amount_btc cfg) (fee_of ex_a) = revenue"
    using assms(5,6) by (simp_all add: cost_of_def revenue_of_def)
  obtain net where n: "profit_net_pct_of revenue cost = Inr net"
    using profit_net_pct_of_returns by blast
  have formula: "if float_gt cost (Finite 0)
             then \<exists>q. float_truediv (float_sub revenue cost) cost = Inr q
                      \<and> net = float_mul q (Finite 100)
             else net = Finite 0"
    using n by (auto simp: profit_net_pct_of_def split: if_splits sum.splits)
  have "compare_books cfg symbol (ex_a, book_a) (ex_b, book_b) =
             (if float_ge net (Finite (arbitrage_min_profit_percent cfg))
              then ([LogOpportunity symbol ex_b ask_b ex_a bid_a net gross,
                     ExecuteArbitrage ex_b ex_a symbol ''buy'' ''sell'' ask_b bid_a
                       (trade_amount_btc cfg)], None)
              else ([], None))"
    using assms(1-3) g n c r by (simp add: compare_books_def Let_def)
  with g formula show ?thesis by blast
qed

lemma compare_books_zero_ask:
  "bids book_a = (bid_a, qb) # bs \<Longrightarrow> asks book_b = (0, qa) # as \<Longrightarrow> bid_a > 0 \<Longrightarrow>
     compare_books cfg symbol (ex_a, book_a) (ex_b, book_b) = ([], Some ZeroDivisionError)"
  by (simp add: compare_books_def profit_pct_of_zero)

text \<open>
  The example of the specification, in doubles: a bid of 101 on A, an ask of 100 on
  B, fees of 0.001 and the amount 0.01. The cost is the double 1.001, the revenue the
  double 1.00899, the gross percentage 1 and the net percentage 0.7982017982018147,
  which is less than 0.001 away from 0.799. The detector emits the opportunity with
  the minimum 0.2 and nothing with the minimum 1.
\<close>

lemma example_cost:
  "cost_of 100 (trade_amount_btc CONFIG) (fee_of ''B'') = Finite (float_literal (1001 / 1000))"
  by (simp add: cost_of_def config_values fee_of_values float_literal_values float_eval)

lemma example_revenue:
  "revenue_of 101 (trade_amount_btc CONFIG) (fee_of ''A'')
     = Finite (float_literal (100899 / 100000))"
  by (simp add: revenue_of_def config_values fee_of_values float_literal_values float_eval)

lemma example_net:
  "profit_net_pct_of (Finite (float_literal (100899 / 100000))) (Finite (float_literal (1001 / 1000)))
     = Inr (Finite (7189562641896305 / 2 ^ 53))"
  "\<bar>7189562641896305 / 2 ^ 53 - 799 / 1000\<bar> < (1 / 1000 :: rat)"
  by (simp_all add: profit_net_pct_of_def float_literal_values float_eval)

lemmas detect_eval = detect_opportunities_for_symbol_def bot_with_config
  one_level_book_def compare_books_def then_run_def profit_pct_of_def profit_net_pct_of_def
  cost_of_def revenue_of_def fee_of_values float_literal_values float_literal_normal float_eval

lemma example_pairwise_detect:
  "snd (detect_opportunities_for_symbol (bot_with (2 / 10) example_pairwise_books) ''BTC/USDT'') =
     ([LogOpportunity ''BTC/USDT'' ''B'' 100 ''A'' 101 (Finite (7189562641896305 / 2 ^ 53)) (Finite 1),
       ExecuteArbitrage ''B'' ''A'' ''BTC/USDT'' ''buy'' ''sell'' 100 101 (float_literal (1 / 100))],
      None)"
  "snd (detect_opportunities_for_symbol (bot_with 1 example_pairwise_books) ''BTC/USDT'') =
     ([], None)"
  by (simp_all add: example_pairwise_books_def detect_eval)

text \<open>
  Two states at which the rounding decides. At the first the net percentage in doubles
  is 0.2000000000000004 and the detector emits, though the exact quotient of the same
  doubles is below the minimum; at the second it is 0.19999999999999846 and the
  detector emits nothing, though the exact quotient is above.
\<close>

lemma example_rounding_up_detect:
  "snd (detect_opportunities_for_symbol (bot_with (2 / 10) example_rounding_up_books) ''BTC/USDT'') =
     ([LogOpportunity ''BTC/USDT'' ''B'' 14318998003 ''A'' 14376359995
         (Finite (900719925474101 / 2 ^ 52)) (Finite (1804144715589073 / 2 ^ 52)),
       ExecuteArbitrage ''B'' ''A'' ''BTC/USDT'' ''buy'' ''sell'' 14318998003 14376359995
         (float_literal (1 / 100))],
      None)"
  by (simp add: example_rounding_up_books_def detect_eval)

lemma example_rounding_down_detect:
  "snd (detect_opportunities_for_symbol (bot_with (2 / 10) example_rounding_down_books) ''BTC/USDT'')
     = ([], None)"
  "profit_net_pct_of (revenue_of 1838837 (trade_amount_btc CONFIG) (fee_of ''A''))
     (cost_of 1831500 (trade_amount_btc CONFIG) (fee_of ''B''))
     = Inr (Finite (3602879701896369 / 2 ^ 54))"
  by (simp_all add: example_rounding_down_books_def detect_eval config_values)

text \<open>
  Claim C4 at an input where the code departs from it: venue A bids 1 and venue B
  asks 0. The cost is 0, for which the claim gives the net percentage 0, as the
  formula of the code does; but the gross percentage is computed first and divides by
  the ask, so the detector raises ZeroDivisionError instead of going on with 0.
\<close>

theorem C4_zero_ask_raises:
  "cost_of 0 (trade_amount_btc CONFIG) (fee_of ''B'') = Finite 0
   \<and> profit_net_pct_of (revenue_of 1 (trade_amount_btc CONFIG) (fee_of ''A''))
        (cost_of 0 (trade_amount_btc CONFIG) (fee_of ''B'')) = Inr (Finite 0)
   \<and> detect_opportunities_for_symbol (bot_with (2 / 10) example_zero_ask_books) ''BTC/USDT'' =
       (bot_with (2 / 10) example_zero_ask_books, ([], Some ZeroDivisionError))"
proof -
  have c: "cost_of 0 (trade_amount_btc CONFIG) (fee_of ''B'') = Finite 0"
    by (simp add: cost_of_def config_values fee_of_values float_eval)
  have n: "profit_net_pct_of (revenue_of 1 (trade_amount_btc CONFIG) (fee_of ''A''))
        (Finite 0) = Inr (Finite 0)"
    by (simp add: profit_net_pct_of_def float_gt_def)
  have d: "detect_opportunities_for_symbol (bot_with (2 / 10) example_zero_ask_books) ''BTC/USDT'' =
       (bot_with (2 / 10) example_zero_ask_books, ([], Some ZeroDivisionError))"
    by (simp add: detect_opportunities_for_symbol_def bot_with_config example_zero_ask_books_def
          one_level_book_def compare_books_def profit_pct_of_zero then_run_def)
  from c n d show ?thesis by simp
qed

text \<open>
  Claim C2 at an input where the code departs from it: the exchange stored second
  (kraken) bids 110, above the ask 100.5 of the exchange stored first (binance), a net
  gain of more than 9 percent. The loops compare the bid of an earlier exchange with
  the ask of a later one only, so this direction is never tested and nothing is
  emitted.
\<close>

theorem C2_reverse_direction_not_tested:
  "collect_books (orderbooks (bot_with (2 / 10) example_reverse_books)) ''BTC/USDT'' =
     [(''binance'', one_level_book 100 (201 / 2) 1), (''kraken'', one_level_book 110 111 1)]
   \<and> fst (hd (bids (one_level_book 110 111 1))) > fst (hd (asks (one_level_book 100 (201 / 2) 1)))
   \<and> profit_net_pct_of (revenue_of 110 (trade_amount_btc CONFIG) (fee_of ''kraken''))
        (cost_of (201 / 2) (trade_amount_btc CONFIG) (fee_of ''binance''))
       = Inr (Finite (5136752896288723 / 2 ^ 49))
   \<and> (5136752896288723 / 2 ^ 49 :: rat) > 9
   \<and> detect_opportunities_for_symbol (bot_with (2 / 10) example_reverse_books) ''BTC/USDT'' =
       (bot_with (2 / 10) example_reverse_books, ([], None))"
  by (simp add: example_reverse_books_def detect_eval config_values)

lemma then_run_events: "set (fst (then_run r1 r2)) \<subseteq> set (fst r1) \<union> set (fst r2)"
  by (cases "snd r1") (auto simp: then_run_def)

lemma compare_books_execute:
  "ExecuteArbitrage ex_buy ex_sell sy side_buy side_sell price_buy price_sell amount
      \<in> set (fst (compare_books cfg symbol (ex_a, book_a) (ex_b, book_b))) \<Longrightarrow>
   ex_buy = ex_b \<and> ex_sell = ex_a \<and> sy = symbol \<and> amount = trade_amount_btc cfg
   \<and> (\<exists>qs rs. bids book_a = (price_sell, qs) # rs)
   \<and> (\<exists>qb rb. asks book_b = (price_buy, qb) # rb)
   \<and> price_sell > price_buy
   \<and> (\<exists>net. profit_net_pct_of (revenue_of price_sell amount (fee_of ex_a))
               (cost_of price_buy amount (fee_of ex_b)) = Inr net
            \<and> float_ge net (Finite (arbitrage_min_profit_percent cfg)))"
  by (auto simp: compare_books_def Let_def split: list.splits if_splits sum.splits)

lemma inner_loop_events:
  "e \<in> set (fst (inner_loop cfg symbol a later)) \<Longrightarrow>
     \<exists>b. b \<in> set later \<and> e \<in> set (fst (compare_books cfg symbol a b))"
proof (induction later)
  case Nil
  then show ?case by simp
next
  case (Cons b later)
  then have "e \<in> set (fst (compare_books cfg symbol a b))
           \<or> e \<in> set (fst (inner_loop cfg symbol a later))"
    using then_run_events [of "compare_books cfg symbol a b" "inner_loop cfg symbol a later"]
    by auto
  then show ?case
  proof
    assume "e \<in> set (fst (compare_books cfg symbol a b))"
    then show ?thesis by (intro exI [of _ b]) simp
  next
    assume "e \<in> set (fst (inner_loop cfg symbol a later))"
    from Cons.IH [OF this] obtain b' where "b' \<in> set later"
      "e \<in> set (fst (compare_books cfg symbol a b'))" by blast
    then show ?thesis by (intro exI [of _ b']) simp
  qed
qed

lemma outer_loop_events:
  "e \<in> set (fst (outer_loop cfg symbol books)) \<Longrightarrow>
     \<exists>a b. a \<in> set books \<and> b \<in> set books \<and> e \<in> set (fst (compare_books cfg symbol a b))"
proof (induction books)
  case Nil
  then show ?case by simp
next
  case (Cons a later)
  then have "e \<in> set (fst (inner_loop cfg symbol a later))
           \<or> e \<in> set (fst (outer_loop cfg symbol later))"
    using then_run_events [of "inner_loop cfg symbol a later" "outer_loop cfg symbol later"]
    by auto
  then show ?case
  proof
    assume "e \<in> set (fst (inner_loop cfg symbol a later))"
    from inner_loop_events [OF this] obtain b where "b \<in> set later"
      "e \<in> set (fst (compare_books cfg symbol a b))" by blast
    then show ?thesis by (intro exI [of _ a] exI [of _ b]) simp
  next
    assume "e \<in> set (fst (outer_loop cfg symbol later))"
    from Cons.IH [OF this] obtain a' b' where "a' \<in> set later" "b' \<in> set later"
      "e \<in> set (fst (compare_books cfg symbol a' b'))" by blast
    then show ?thesis by (intro exI [of _ a'] exI [of _ b']) simp
  qed
qed

lemma collect_books_member:
  "(ex_name, b) \<in> set (collect_books obs symbol) \<Longrightarrow>
     \<exists>d. (ex_name, d) \<in> set obs \<and> map_of d symbol = Some b"
  by (induction obs symbol rule: collect_books.induct) (auto split: option.splits)

text \<open>
  Claim C10: every call of the execution made by the pairwise detector buys on an
  exchange whose stored book for the symbol has a best ask and sells on an exchange
  whose stored book has a best bid; the prices passed are these two, the selling
  price is strictly greater than the buying price, and the net percentage that the
  code computes from them, in doubles by its three formulas, is at least the
  configured minimum.
\<close>

theorem C10_dispatched_trades:
  assumes "ExecuteArbitrage ex_buy ex_sell sy side_buy side_sell price_buy price_sell amount
             \<in> set (fst (snd (detect_opportunities_for_symbol self symbol)))"
  shows "\<exists>d_buy d_sell book_buy book_sell qb rb qs rs cost revenue net.
           (ex_buy, d_buy) \<in> set (orderbooks self) \<and> map_of d_buy symbol = Some book_buy
         \<and> (ex_sell, d_sell) \<in> set (orderbooks self) \<and> map_of d_sell symbol = Some book_sell
         \<and> asks book_buy = (price_buy, qb) # rb
         \<and> bids book_sell = (price_sell, qs) # rs
         \<and> price_sell > price_buy
         \<and> sy = symbol \<and> amount = trade_amount_btc (config self)
         \<and> cost = float_mul (float_mul (Finite price_buy) (Finite amount))
                    (float_add (Finite 1) (Finite (fee_of ex_buy)))
         \<and> revenue = float_mul (float_mul (Finite price_sell) (Finite amount))
                       (float_sub (Finite 1) (Finite (fee_of ex_sell)))
         \<and> (if float_gt cost (Finite 0)
             then \<exists>q. float_truediv (float_sub revenue cost) cost = Inr q
                      \<and> net = float_mul q (Finite 100)
             else net = Finite 0)
         \<and> float_ge net (Finite (arbitrage_min_profit_percent (config self)))"
proof -
  let ?e = "ExecuteArbitrage ex_buy ex_sell sy side_buy side_sell price_buy price_sell amount"
  let ?books = "collect_books (orderbooks self) symbol"
  have "?e \<in> set (fst (outer_loop (config self) symbol ?books))"
    using assms by (auto simp: detect_opportunities_for_symbol_def Let_def split: if_splits)
  then obtain a b where a: "a \<in> set ?books" and b: "b \<in> set ?books"
    and e: "?e \<in> set (fst (compare_books (config self) symbol a b))"
    using outer_loop_events by blast
  obtain ex_a book_a where pa: "a = (ex_a, book_a)" by (cases a)
  obtain ex_b book_b where pb: "b = (ex_b, book_b)" by (cases b)
  note facts = compare_books_execute [OF e [unfolded pa pb]]
  from a pa obtain d_a where da: "(ex_a, d_a) \<in> set (orderbooks self)" "map_of d_a symbol = Some book_a"
    using collect_books_member by blast
  from b pb obtain d_b where db: "(ex_b, d_b) \<in> set (orderbooks self)" "map_of d_b symbol = Some book_b"
    using collect_books_member by blast
  from facts obtain qs rs qb rb net where heads:
    "bids book_a = (price_sell, qs) # rs" "asks book_b = (price_buy, qb) # rb"
    and net: "profit_net_pct_of (revenue_of price_sell amount (fee_of ex_a))
               (cost_of price_buy amount (fee_of ex_b)) = Inr net"
    and ge: "float_ge net (Finite (arbitrage_min_profit_percent (config self)))"
    by blast
  let ?cost = "float_mul (float_mul (Finite price_buy) (Finite amount))
                    (float_add (Finite 1) (Finite (fee_of ex_buy)))"
  let ?revenue = "float_mul (float_mul (Finite price_sell) (Finite amount))
                       (float_sub (Finite 1) (Finite (fee_of ex_sell)))"
  have names: "ex_buy = ex_b" "ex_sell = ex_a" using facts by simp_all
  have formula: "if float_gt ?cost (Finite 0)
             then \<exists>q. float_truediv (float_sub ?revenue ?cost) ?cost = Inr q
                      \<and> net = float_mul q (Finite 100)
             else net = Finite 0"
    using profit_net_pct_of_formula [OF net] unfolding names cost_of_def revenue_of_def .
  from facts da db heads names formula ge show ?thesis
    by blast
qed

theorem C10_witness:
  "ExecuteArbitrage ''B'' ''A'' ''BTC/USDT'' ''buy'' ''sell'' 14318998003 14376359995
       (float_literal (1 / 100))
     \<in> set (fst (snd (detect_opportunities_for_symbol
                         (bot_with (2 / 10) example_rounding_up_books) ''BTC/USDT'')))
   \<and> (\<exists>d_buy d_sell book_buy book_sell qb rb qs rs cost revenue net.
           (''B'', d_buy) \<in> set (orderbooks (bot_with (2 / 10) example_rounding_up_books))
         \<and> map_of d_buy ''BTC/USDT'' = Some book_buy
         \<and> (''A'', d_sell) \<in> set (orderbooks (bot_with (2 / 10) example_rounding_up_books))
         \<and> map_of d_sell ''BTC/USDT'' = Some book_sell
         \<and> asks book_buy = (14318998003, qb) # rb
         \<and> bids book_sell = (14376359995, qs) # rs
         \<and> (14376359995 :: rat) > 14318998003
         \<and> cost = float_mul (float_mul (Finite 14318998003) (Finite (float_literal (1 / 100))))
                    (float_add (Finite 1) (Finite (fee_of ''B'')))
         \<and> revenue = float_mul (float_mul (Finite 14376359995) (Finite (float_literal (1 / 100))))
                       (float_sub (Finite 1) (Finite (fee_of ''A'')))
         \<and> (if float_gt cost (Finite 0)
             then \<exists>q. float_truediv (float_sub revenue cost) cost = Inr q
                      \<and> net = float_mul q (Finite 100)
             else net = Finite 0)
         \<and> float_ge net (Finite (arbitrage_min_profit_percent
                                   (config (bot_with (2 / 10) example_rounding_up_books)))))
   \<and> profit_net_pct_of (revenue_of 14376359995 (float_literal (1 / 100)) (fee_of ''A''))
        (cost_of 14318998003 (float_literal (1 / 100)) (fee_of ''B''))
       = Inr (Finite (900719925474101 / 2 ^ 52))
   \<and> float_literal (2 / 10) = 3602879701896397 / 2 ^ 54
   \<and> (3602879701896397 / 2 ^ 54 :: rat) \<le> 900719925474101 / 2 ^ 52"
proof -
  have h: "ExecuteArbitrage ''B'' ''A'' ''BTC/USDT'' ''buy'' ''sell'' 14318998003 14376359995
       (float_literal (1 / 100))
     \<in> set (fst (snd (detect_opportunities_for_symbol
                         (bot_with (2 / 10) example_rounding_up_books) ''BTC/USDT'')))"
    unfolding example_rounding_up_detect by simp
  have n: "profit_net_pct_of (revenue_of 14376359995 (float_literal (1 / 100)) (fee_of ''A''))
        (cost_of 14318998003 (float_literal (1 / 100)) (fee_of ''B''))
       = Inr (Finite (900719925474101 / 2 ^ 52))"
    by (simp add: profit_net_pct_of_def revenue_of_def cost_of_def fee_of_values
          float_literal_values float_eval)
  have m: "float_literal (2 / 10) = 3602879701896397 / 2 ^ 54"
    by (rule float_literal_values)
  have le: "(3602879701896397 / 2 ^ 54 :: rat) \<le> 900719925474101 / 2 ^ 52"
    by simp
  show ?thesis
    using h C10_dispatched_trades [OF h] n m le by blast
qed

subsection \<open>The liquidity filter\<close>

lemma map_of_filter_other:
  "map_of (filter (\<lambda>kv. fst kv \<noteq> k) kvs) k' = (if k' = k then None else map_of kvs k')"
  by (induction kvs) auto

lemma length_filter_keys: "length (filter (\<lambda>kv. fst kv \<noteq> k) kvs) < Suc (length kvs)"
  by (simp add: le_imp_less_Suc)

lemma set_dict_items: "(k, v) \<in> set (dict_items kvs) \<longleftrightarrow> map_of kvs k = Some v"
proof (induction kvs arbitrary: k v rule: dict_items.induct)
  case 1
  then show ?case by simp
next
  case (2 k0 v0 kvs)
  show ?case
    using "2.IH" [of k v] by (auto simp: map_of_filter_other)
qed

lemma dict_items_subset: "set (dict_items kvs) \<subseteq> set kvs"
proof
  fix kv assume "kv \<in> set (dict_items kvs)"
  then have "map_of kvs (fst kv) = Some (snd kv)"
    using set_dict_items [of "fst kv" "snd kv" kvs] by simp
  then show "kv \<in> set kvs"
    using map_of_SomeD [of kvs "fst kv" "snd kv"] by simp
qed

lemma split_on_not_Nil: "split_on sep s \<noteq> []"
  by (induction s) (auto split: list.splits)

lemma length_split_on: "length (split_on sep s) = Suc (count_list s sep)"
  by (induction s) (auto split: list.splits simp: split_on_not_Nil)

lemma split_on_one_slash:
  assumes "sep \<in> set s" "count_list s sep \<le> 1"
  shows "\<exists>b q. split_on sep s = [b, q]"
proof -
  have "count_list s sep \<noteq> 0" using assms(1) by (simp add: count_list_0_iff)
  with assms(2) have "length (split_on sep s) = 2" by (simp add: length_split_on)
  then show ?thesis
    by (cases "split_on sep s"; cases "tl (split_on sep s)"; cases "tl (tl (split_on sep s))") auto
qed

lemma spread_pct_returns: "bid \<noteq> 0 \<Longrightarrow> \<exists>s. spread_pct bid ask = Inr s"
  using float_truediv_nonzero [of bid "float_sub (Finite ask) (Finite bid)"]
  by (auto simp: spread_pct_def)

lemma passes_filters_total:
  assumes "well_formed_ticker symbol t"
  shows "\<exists>ok. passes_filters cfg symbol t = Inr ok"
proof (cases "CHR ''/'' \<in> set symbol")
  case False
  then show ?thesis
    by (auto simp: passes_filters_def split: pyval.splits)
next
  case True
  with assms obtain b q where sp: "split_on CHR ''/'' symbol = [b, q]"
    using split_on_one_slash [of "CHR ''/''" symbol] by (auto simp: well_formed_ticker_def)
  have nobj: "\<not> is_obj (ticker_get t ''bid'')" "\<not> is_obj (ticker_get t ''ask'')"
    using assms by (simp_all add: well_formed_ticker_def)
  show ?thesis
  proof (cases "ticker_get t ''bid''")
    case PNone
    with True sp show ?thesis
      by (auto simp: passes_filters_def split: pyval.splits)
  next
    case (PObj x)
    with nobj show ?thesis by simp
  next
    case (PNum bid)
    note bid = this
    show ?thesis
    proof (cases "ticker_get t ''ask''")
      case PNone
      with True sp bid show ?thesis
        by (auto simp: passes_filters_def split: pyval.splits)
    next
      case (PObj x)
      with nobj show ?thesis by simp
    next
      case (PNum ask)
      show ?thesis
      proof (cases "bid \<le> 0 \<or> ask \<le> 0")
        case True
        with \<open>CHR ''/'' \<in> set symbol\<close> sp bid PNum show ?thesis
          by (auto simp: passes_filters_def split: pyval.splits)
      next
        case False
        then obtain s where "spread_pct bid ask = Inr s"
          using spread_pct_returns [of bid ask] by auto
        with False \<open>CHR ''/'' \<in> set symbol\<close> sp bid PNum show ?thesis
          by (auto simp: passes_filters_def split: pyval.splits)
      qed
    qed
  qed
qed

lemma pairs_at_add_symbol:
  "pairs_at (add_symbol f exchange symbol) ex' =
     (if ex' = exchange then insert symbol (pairs_at f exchange) else pairs_at f ex')"
  by (simp add: pairs_at_def add_symbol_def)

lemma filter_symbols_pairs:
  "filter_symbols cfg exchange d f0 = Inr f \<Longrightarrow>
     pairs_at f ex' = pairs_at f0 ex' \<union>
       (if ex' = exchange
        then {symbol. \<exists>t. (symbol, t) \<in> set d \<and> passes_filters cfg symbol t = Inr True}
        else {})"
proof (induction d arbitrary: f0)
  case Nil
  then show ?case by simp
next
  case (Cons st d)
  obtain symbol t where st: "st = (symbol, t)" by (cases st)
  from Cons.prems st obtain ok where ok: "passes_filters cfg symbol t = Inr ok"
    and rest: "filter_symbols cfg exchange d (if ok then add_symbol f0 exchange symbol else f0) = Inr f"
    by (auto split: sum.splits)
  show ?case
    using Cons.IH [OF rest] ok st
    by (cases ok) (auto simp: pairs_at_add_symbol)
qed

lemma filter_exchanges_pairs:
  "filter_exchanges cfg tks f0 = Inr f \<Longrightarrow>
     pairs_at f ex' = pairs_at f0 ex' \<union>
       {symbol. \<exists>d t. (ex', d) \<in> set tks \<and> (symbol, t) \<in> set (dict_items d)
                  \<and> passes_filters cfg symbol t = Inr True}"
proof (induction tks arbitrary: f0)
  case Nil
  then show ?case by simp
next
  case (Cons kv tks)
  obtain exchange d where kv: "kv = (exchange, d)" by (cases kv)
  from Cons.prems kv obtain f1 where f1: "filter_symbols cfg exchange (dict_items d) f0 = Inr f1"
    and rest: "filter_exchanges cfg tks f1 = Inr f"
    by (auto split: sum.splits)
  show ?case
    using Cons.IH [OF rest] filter_symbols_pairs [OF f1, of ex'] kv
    by auto
qed

lemma filter_symbols_total:
  "list_all (\<lambda>st. well_formed_ticker (fst st) (snd st)) d \<Longrightarrow>
     \<exists>f. filter_symbols cfg exchange d f0 = Inr f"
proof (induction d arbitrary: f0)
  case Nil
  then show ?case by simp
next
  case (Cons st d)
  obtain symbol t where st: "st = (symbol, t)" by (cases st)
  with Cons.prems obtain ok where "passes_filters cfg symbol t = Inr ok"
    using passes_filters_total [of symbol t cfg] by auto
  then show ?case
    using Cons.IH [of "if ok then add_symbol f0 exchange symbol else f0"] Cons.prems st
    by auto
qed

lemma filter_exchanges_total:
  "list_all (\<lambda>kv. list_all (\<lambda>st. well_formed_ticker (fst st) (snd st)) (snd kv)) tks \<Longrightarrow>
     \<exists>f. filter_exchanges cfg tks f0 = Inr f"
proof (induction tks arbitrary: f0)
  case Nil
  then show ?case by simp
next
  case (Cons kv tks)
  obtain exchange d where kv: "kv = (exchange, d)" by (cases kv)
  have "list_all (\<lambda>st. well_formed_ticker (fst st) (snd st)) (dict_items d)"
    using Cons.prems kv dict_items_subset [of d] by (auto simp: list_all_iff)
  then obtain f1 where "filter_symbols cfg exchange (dict_items d) f0 = Inr f1"
    using filter_symbols_total [of "dict_items d" cfg exchange f0] by auto
  then show ?case
    using Cons.IH [of f1] Cons.prems kv by auto
qed

text \<open>On well-formed tickers the filter returns.\<close>

lemma filter_pairs_by_liquidity_returns:
  assumes "well_formed_tickers tks"
  shows "\<exists>f. filter_pairs_by_liquidity self tks = Inr f"
proof -
  have "list_all (\<lambda>kv. list_all (\<lambda>st. well_formed_ticker (fst st) (snd st)) (snd kv))
          (dict_items tks)"
    using assms dict_items_subset [of tks] by (auto simp: well_formed_tickers_def list_all_iff)
  from filter_exchanges_total [OF this] show ?thesis
    by (simp add: filter_pairs_by_liquidity_def)
qed

text \<open>
  When the filter returns, a symbol is in the set of its exchange iff the ticker that
  the input holds for it passes the checks.
\<close>

lemma filter_pairs_by_liquidity_kept:
  assumes f: "filter_pairs_by_liquidity self tks = Inr f"
    and ex: "map_of tks exchange = Some d" and sy: "map_of d symbol = Some t"
  shows "symbol \<in> pairs_at f exchange \<longleftrightarrow> passes_filters (config self) symbol t = Inr True"
proof -
  have empty: "pairs_at Map.empty exchange = {}"
    by (simp add: pairs_at_def)
  have eq: "pairs_at f exchange =
      {symbol. \<exists>d t. (exchange, d) \<in> set (dict_items tks) \<and> (symbol, t) \<in> set (dict_items d)
                 \<and> passes_filters (config self) symbol t = Inr True}"
    using filter_exchanges_pairs [OF f [unfolded filter_pairs_by_liquidity_def], of exchange] empty
    by simp
  show ?thesis
  proof
    assume "symbol \<in> pairs_at f exchange"
    then obtain d' t' where d': "(exchange, d') \<in> set (dict_items tks)"
      and t': "(symbol, t') \<in> set (dict_items d')"
      and p: "passes_filters (config self) symbol t' = Inr True"
      using eq by blast
    from d' ex have "d' = d" by (simp add: set_dict_items)
    with t' sy have "t' = t" by (simp add: set_dict_items)
    with p show "passes_filters (config self) symbol t = Inr True" by simp
  next
    assume "passes_filters (config self) symbol t = Inr True"
    moreover have "(exchange, d) \<in> set (dict_items tks)" using ex by (simp add: set_dict_items)
    moreover have "(symbol, t) \<in> set (dict_items d)" using sy by (simp add: set_dict_items)
    ultimately show "symbol \<in> pairs_at f exchange"
      unfolding eq by blast
  qed
qed

text \<open>
  Claim C8: on a well-formed ticker input the filter returns, and a symbol whose
  quote volume is below the configured minimum is absent from the filtered set of
  its exchange.
\<close>

theorem C8_low_volume_absent:
  assumes "well_formed_tickers tks"
    and "(exchange, d) \<in> set tks" and "(symbol, t) \<in> set d"
    and "ticker_get t ''quoteVolume'' = PNum v" and "v < min_volume_usd (config self)"
  shows "\<exists>f. filter_pairs_by_liquidity self tks = Inr f \<and> symbol \<notin> pairs_at f exchange"
proof -
  have "distinct (map fst tks)" using assms(1) by (simp add: well_formed_tickers_def)
  with assms(2) have ex: "map_of tks exchange = Some d" by simp
  have "distinct (map fst d)"
    using assms(1,2) by (auto simp: well_formed_tickers_def list_all_iff)
  with assms(3) have sy: "map_of d symbol = Some t" by simp
  have no: "passes_filters (config self) symbol t \<noteq> Inr True"
    using assms(4,5) by (auto simp: passes_filters_def split: list.splits)
  obtain f where f: "filter_pairs_by_liquidity self tks = Inr f"
    using filter_pairs_by_liquidity_returns [OF assms(1)] by blast
  from filter_pairs_by_liquidity_kept [OF f ex sy] no f show ?thesis by blast
qed

lemma example_tickers_wf: "well_formed_tickers (example_tickers vol ask)"
  by (simp add: well_formed_tickers_def example_tickers_def well_formed_ticker_def ticker_get_def)

theorem C8_witness:
  "well_formed_tickers (example_tickers 500000 (201 / 2))
   \<and> (500000 :: rat) < min_volume_usd (config (bot_with (2 / 10) []))
   \<and> (\<exists>f. filter_pairs_by_liquidity (bot_with (2 / 10) []) (example_tickers 500000 (201 / 2)) = Inr f
          \<and> ''BTC/USDT'' \<notin> pairs_at f ''binance'')"
proof -
  have v: "(500000 :: rat) < min_volume_usd (config (bot_with (2 / 10) []))"
    by (simp add: bot_with_config)
  show ?thesis
    using v example_tickers_wf [of 500000 "201 / 2"]
      C8_low_volume_absent [OF example_tickers_wf [of 500000 "201 / 2"], of "''binance''"
        "[(''BTC/USDT'', [(''quoteVolume'', PNum 500000), (''bid'', PNum 100), (''ask'', PNum (201 / 2))])]"
        "''BTC/USDT''"
        "[(''quoteVolume'', PNum 500000), (''bid'', PNum 100), (''ask'', PNum (201 / 2))]"
        500000 "bot_with (2 / 10) []"]
    by (simp add: example_tickers_def ticker_get_def)
qed

text \<open>
  Claim C6: for a symbol that passes the checks before the spread test, let the
  spread percentage be what the code computes, \<^verbatim>\<open>(ask - bid) / bid * 100\<close> in
  doubles. Whenever the filter returns, the symbol is in the filtered set of its
  exchange iff that percentage is not greater than the configured maximum: a
  percentage equal to the maximum keeps the symbol, a greater one keeps it out. On
  well-formed tickers the filter does return.
\<close>

theorem C6_spread_boundary:
  assumes "map_of tks exchange = Some d" and "map_of d symbol = Some t"
    and "ticker_get t ''quoteVolume'' = PNum v" and "v \<ge> min_volume_usd (config self)"
    and "split_on CHR ''/'' symbol = [base, quote]"
    and "quote \<in> set (quote_currencies (config self))"
    and "ticker_get t ''bid'' = PNum bid" and "ticker_get t ''ask'' = PNum ask"
    and "bid > 0" and "ask > 0"
    and "float_truediv (float_sub (Finite ask) (Finite bid)) (Finite bid) = Inr q"
    and "spread = float_mul q (Finite 100)"
  shows "(\<forall>f. filter_pairs_by_liquidity self tks = Inr f \<longrightarrow>
            (symbol \<in> pairs_at f exchange
               \<longleftrightarrow> \<not> float_gt spread (Finite (max_spread_percent (config self))))
          \<and> (spread = Finite (max_spread_percent (config self))
               \<longrightarrow> symbol \<in> pairs_at f exchange)
          \<and> (float_gt spread (Finite (max_spread_percent (config self)))
               \<longrightarrow> symbol \<notin> pairs_at f exchange))
       \<and> (well_formed_tickers tks \<longrightarrow> (\<exists>f. filter_pairs_by_liquidity self tks = Inr f))"
proof -
  have nonempty: "t \<noteq> []"
    using assms(3) by (auto simp: ticker_get_def)
  have slash: "CHR ''/'' \<in> set symbol"
  proof (rule ccontr)
    assume "CHR ''/'' \<notin> set symbol"
    then have "count_list symbol CHR ''/'' = 0" by (simp add: count_list_0_iff)
    then have "length (split_on CHR ''/'' symbol) = 1" by (simp add: length_split_on)
    with assms(5) show False by simp
  qed
  have sp: "spread_pct bid ask = Inr spread"
    using assms(11,12) by (simp add: spread_pct_def)
  have pass: "passes_filters (config self) symbol t = Inr True
          \<longleftrightarrow> \<not> float_gt spread (Finite (max_spread_percent (config self)))"
    using assms(3-10) nonempty slash sp by (auto simp: passes_filters_def)
  have eq: "\<not> float_gt (Finite x) (Finite x)" for x :: rat
    by (simp add: float_gt_def)
  show ?thesis
    using filter_pairs_by_liquidity_kept [OF _ assms(1,2), of self] pass eq
      filter_pairs_by_liquidity_returns [of tks self]
    by auto
qed

lemma example_ticker_of_wf: "well_formed_tickers (example_ticker_of vol bid ask)"
  by (simp add: well_formed_tickers_def example_ticker_of_def well_formed_ticker_def ticker_get_def)

lemma bot_with_spread_config:
  "max_spread_percent (config (bot_with_spread m)) = float_literal m"
  "min_volume_usd (config (bot_with_spread m)) = 1000000"
  "quote_currencies (config (bot_with_spread m)) = [''USDT'', ''USD'', ''BTC'']"
  by (simp_all add: bot_with_spread_def CONFIG_def)

text \<open>
  At a bid of 200 and an ask of 201 the code computes exactly 0.5, the shipped
  maximum, and the symbol is kept. At a bid of 100, an ask of 107 and a maximum of 7
  it computes 7.000000000000001, and the symbol is dropped.
\<close>

theorem C6_witness:
  "spread_pct 200 201 = Inr (Finite (max_spread_percent (config (bot_with_spread (5 / 10)))))
   \<and> (\<exists>f. filter_pairs_by_liquidity (bot_with_spread (5 / 10)) (example_ticker_of 2000000 200 201)
            = Inr f
          \<and> ''BTC/USDT'' \<in> pairs_at f ''binance'')
   \<and> spread_pct 100 107 = Inr (Finite (7881299347898369 / 2 ^ 50))
   \<and> float_gt (Finite (7881299347898369 / 2 ^ 50))
        (Finite (max_spread_percent (config (bot_with_spread 7))))
   \<and> (\<exists>f. filter_pairs_by_liquidity (bot_with_spread 7) (example_ticker_of 2000000 100 107)
            = Inr f
          \<and> ''BTC/USDT'' \<notin> pairs_at f ''binance'')"
proof -
  have q1: "float_truediv (float_sub (Finite 201) (Finite 200)) (Finite 200)
      = Inr (Finite (float_literal (1 / 200)))"
    by (simp add: float_literal_normal float_eval)
  have s1: "Finite (1 / 2) = float_mul (Finite (float_literal (1 / 200))) (Finite 100)"
    by (simp add: float_literal_normal float_eval)
  have m1: "max_spread_percent (config (bot_with_spread (5 / 10))) = 1 / 2"
    by (simp add: bot_with_spread_config float_literal_values float_literal_normal)
  have e1: "spread_pct 200 201 = Inr (Finite (max_spread_percent (config (bot_with_spread (5 / 10)))))"
    unfolding m1 by (simp add: spread_pct_def float_literal_normal float_eval)
  have a: "\<exists>f. filter_pairs_by_liquidity (bot_with_spread (5 / 10))
                 (example_ticker_of 2000000 200 201) = Inr f
          \<and> ''BTC/USDT'' \<in> pairs_at f ''binance''"
    using C6_spread_boundary [of "example_ticker_of 2000000 200 201" "''binance''"
        "[(''BTC/USDT'', [(''quoteVolume'', PNum 2000000), (''bid'', PNum 200), (''ask'', PNum 201)])]"
        "''BTC/USDT''"
        "[(''quoteVolume'', PNum 2000000), (''bid'', PNum 200), (''ask'', PNum 201)]"
        2000000 "bot_with_spread (5 / 10)" "''BTC''" "''USDT''" 200 201
        "Finite (float_literal (1 / 200))" "Finite (1 / 2)", OF _ _ _ _ _ _ _ _ _ _ q1 s1]
      example_ticker_of_wf [of 2000000 200 201] m1
    by (auto simp: example_ticker_of_def ticker_get_def bot_with_spread_config float_gt_def)
  have q2: "float_truediv (float_sub (Finite 107) (Finite 100)) (Finite 100)
      = Inr (Finite (1261007895663739 / 2 ^ 54))"
    by (simp add: float_eval)
  have s2: "Finite (7881299347898369 / 2 ^ 50)
      = float_mul (Finite (1261007895663739 / 2 ^ 54)) (Finite 100)"
    by (simp add: float_eval)
  have m2: "max_spread_percent (config (bot_with_spread 7)) = 7"
    by (simp add: bot_with_spread_config float_literal_values)
  have e2: "spread_pct 100 107 = Inr (Finite (7881299347898369 / 2 ^ 50))"
    by (simp add: spread_pct_def float_eval)
  have g2: "float_gt (Finite (7881299347898369 / 2 ^ 50))
        (Finite (max_spread_percent (config (bot_with_spread 7))))"
    unfolding m2 by (simp add: float_gt_def)
  have b: "\<exists>f. filter_pairs_by_liquidity (bot_with_spread 7)
                 (example_ticker_of 2000000 100 107) = Inr f
          \<and> ''BTC/USDT'' \<notin> pairs_at f ''binance''"
    using C6_spread_boundary [of "example_ticker_of 2000000 100 107" "''binance''"
        "[(''BTC/USDT'', [(''quoteVolume'', PNum 2000000), (''bid'', PNum 100), (''ask'', PNum 107)])]"
        "''BTC/USDT''"
        "[(''quoteVolume'', PNum 2000000), (''bid'', PNum 100), (''ask'', PNum 107)]"
        2000000 "bot_with_spread 7" "''BTC''" "''USDT''" 100 107
        "Finite (1261007895663739 / 2 ^ 54)" "Finite (7881299347898369 / 2 ^ 50)",
        OF _ _ _ _ _ _ _ _ _ _ q2 s2]
      example_ticker_of_wf [of 2000000 100 107] g2
    by (auto simp: example_ticker_of_def ticker_get_def bot_with_spread_config)
  show ?thesis using e1 a e2 g2 b by blast
qed

text \<open>
  Claim C7: the filter is a function of the tickers and the configuration only. It
  receives the whole object, and two objects with the same configuration, whatever
  their order books, filtered sets, stored tickers, clock and running flag, give the
  same result on the same tickers, be it a filtered set or an exception.
\<close>

theorem C7_filter_depends_on_config_and_tickers_only:
  "config self1 = config self2 \<Longrightarrow>
     filter_pairs_by_liquidity self1 tks = filter_pairs_by_liquidity self2 tks"
  by (simp add: filter_pairs_by_liquidity_def)

theorem C7_witness:
  "config (bot_with (2 / 10) example_pairwise_books) = config (bot_with (2 / 10) example_triangle_books)
   \<and> orderbooks (bot_with (2 / 10) example_pairwise_books)
       \<noteq> orderbooks (bot_with (2 / 10) example_triangle_books)
   \<and> filter_pairs_by_liquidity (bot_with (2 / 10) example_pairwise_books)
         (example_tickers 2000000 (201 / 2))
       = filter_pairs_by_liquidity (bot_with (2 / 10) example_triangle_books)
           (example_tickers 2000000 (201 / 2))"
proof -
  have c: "config (bot_with (2 / 10) example_pairwise_books)
         = config (bot_with (2 / 10) example_triangle_books)"
    by (simp add: bot_with_def)
  have d: "orderbooks (bot_with (2 / 10) example_pairwise_books)
       \<noteq> orderbooks (bot_with (2 / 10) example_triangle_books)"
    by (simp add: bot_with_def example_pairwise_books_def example_triangle_books_def)
  show ?thesis
    using c d C7_filter_depends_on_config_and_tickers_only [OF c] by simp
qed

subsection \<open>The triangle detector\<close>

lemma then_run_no_opportunity:
  "filter is_opportunity (fst r1) = [] \<Longrightarrow> filter is_opportunity (fst r2) = [] \<Longrightarrow>
     filter is_opportunity (fst (then_run r1 r2)) = []"
  by (cases "snd r1") (auto simp: then_run_def)

lemma evaluate_triangle_no_opportunity:
  "filter is_opportunity (evaluate_triangle self exchange a b c pair_ab pair_bc pair_ca) = []"
  by (simp add: evaluate_triangle_def Let_def split: option.splits)

lemma triangle_body_no_opportunity:
  "filter is_opportunity (fst (triangle_body self exchange_name a b c)) = []"
  by (simp add: triangle_body_def evaluate_triangle_no_opportunity
        split: sum.splits option.splits)

lemma loop_c_no_opportunity:
  "filter is_opportunity (fst (loop_c self exchange_name a b cs)) = []"
  by (induction cs) (simp_all add: then_run_no_opportunity triangle_body_no_opportunity)

lemma loop_b_no_opportunity:
  "filter is_opportunity (fst (loop_b self exchange_name coins a bs)) = []"
  by (induction bs) (simp_all add: then_run_no_opportunity loop_c_no_opportunity)

lemma loop_a_no_opportunity:
  "filter is_opportunity (fst (loop_a self exchange_name coins as)) = []"
  by (induction as) (simp_all add: then_run_no_opportunity loop_b_no_opportunity)

lemma detect_triangular_no_opportunity:
  "filter is_opportunity (fst (snd (detect_triangular_opportunities self exchange_name))) = []"
  by (simp add: detect_triangular_opportunities_def Let_def loop_a_no_opportunity
        split: sum.splits)

lemma find_pair_config: "find_pair (self\<lparr>config := cfg\<rparr>) = find_pair self"
  by (simp add: find_pair_def fun_eq_iff)

lemma evaluate_triangle_config:
  "evaluate_triangle (self\<lparr>config := cfg\<rparr>) = evaluate_triangle self"
  by (simp add: evaluate_triangle_def fun_eq_iff)

lemma triangle_body_config:
  "triangle_body (self\<lparr>config := cfg\<rparr>) exchange_name a b c =
     triangle_body self exchange_name a b c"
  by (simp add: triangle_body_def find_pair_config evaluate_triangle_config
        split: sum.splits option.splits)

lemma loop_c_config:
  "loop_c (self\<lparr>config := cfg\<rparr>) exchange_name a b cs = loop_c self exchange_name a b cs"
  by (induction cs) (simp_all add: triangle_body_config)

lemma loop_b_config:
  "loop_b (self\<lparr>config := cfg\<rparr>) exchange_name coins a bs = loop_b self exchange_name coins a bs"
  by (induction bs) (simp_all add: loop_c_config)

lemma loop_a_config:
  "loop_a (self\<lparr>config := cfg\<rparr>) exchange_name coins as = loop_a self exchange_name coins as"
  by (induction as) (simp_all add: loop_b_config)

lemma detect_triangular_config:
  "snd (detect_triangular_opportunities (self\<lparr>config := cfg\<rparr>) exchange_name) =
   snd (detect_triangular_opportunities self exchange_name)"
  by (simp add: detect_triangular_opportunities_def Let_def loop_a_config split: sum.splits)

text \<open>
  Claim C1 says that the triangle detector computes the net percentage of the cycle
  and emits an opportunity iff it reaches the minimum. On one exchange whose books
  make the cycle BTC, ETH, USDT, BTC worth 9.37 percent net by the rule of the
  specification, far above the minimum of 0.2, the code logs the potential triangle
  and emits no opportunity.
\<close>

theorem C1_counterexample:
  "spec_triangle_emits (bot_with (2 / 10) example_triangle_books) ''binance'' ''BTC'' ''ETH'' ''USDT''
   \<and> spec_triangle_net_pct (bot_with (2 / 10) example_triangle_books) ''binance'' ''BTC'' ''ETH'' ''USDT''
       = Some (7179994386433677415408156313599381059405308943614778295 / 2 ^ 179)
   \<and> (7179994386433677415408156313599381059405308943614778295 / 2 ^ 179 :: rat) > 9
   \<and> snd (detect_triangular_opportunities (bot_with (2 / 10) example_triangle_books) ''binance'')
       = ([LogTriangle ''binance'' ''BTC'' ''ETH'' ''USDT'' ''ETH/BTC'' ''ETH/USDT'' ''BTC/USDT''], None)
   \<and> filter is_opportunity
        (fst (snd (detect_triangular_opportunities (bot_with (2 / 10) example_triangle_books) ''binance'')))
       = []"
proof -
  have net: "spec_triangle_net_pct (bot_with (2 / 10) example_triangle_books) ''binance'' ''BTC'' ''ETH'' ''USDT''
       = Some (7179994386433677415408156313599381059405308943614778295 / 2 ^ 179)"
    by (simp add: spec_triangle_net_pct_def spec_edge_factor_def bot_with_config
          example_triangle_books_def one_level_book_def books_at_def fee_of_values Let_def)
  have big: "(7179994386433677415408156313599381059405308943614778295 / 2 ^ 179 :: rat) > 9"
    by simp
  have emits: "spec_triangle_emits (bot_with (2 / 10) example_triangle_books) ''binance'' ''BTC'' ''ETH'' ''USDT''"
    unfolding spec_triangle_emits_def net
    by (simp add: bot_with_config float_literal_values float_literal_normal)
  have code: "snd (detect_triangular_opportunities (bot_with (2 / 10) example_triangle_books) ''binance'')
       = ([LogTriangle ''binance'' ''BTC'' ''ETH'' ''USDT'' ''ETH/BTC'' ''ETH/USDT'' ''BTC/USDT''], None)"
    by (simp add: detect_triangular_opportunities_def bot_with_config example_triangle_books_def
          books_at_def set_add_def restrict_coins_def common_coins_def triangle_body_def
          find_pair_def evaluate_triangle_def then_run_def Let_def)
  show ?thesis
    using net big emits code by simp
qed

lemma triples_of_append: "triples_of (xs @ ys) = triples_of xs @ triples_of ys"
  by (simp add: triples_of_def)

lemma then_run_subseq:
  assumes "subseq (triples_of (fst r1)) xs" and "subseq (triples_of (fst r2)) ys"
  shows "subseq (triples_of (fst (then_run r1 r2))) (xs @ ys)"
proof (cases "snd r1")
  case None
  then show ?thesis
    using assms by (simp add: then_run_def triples_of_append list_emb_append_mono)
next
  case (Some e)
  then show ?thesis
    using assms(1) by (simp add: then_run_def subseq_rev_drop_many)
qed

lemma evaluate_triangle_triples:
  "subseq (triples_of (evaluate_triangle self exchange a b c pair_ab pair_bc pair_ca)) [(a, b, c)]"
  by (simp add: evaluate_triangle_def triples_of_def Let_def split: option.splits)

lemma triangle_body_triples:
  "subseq (triples_of (fst (triangle_body self exchange_name a b c))) [(a, b, c)]"
  using evaluate_triangle_triples
  by (simp add: triangle_body_def triples_of_def [of "[]"] split: sum.splits option.splits)

lemma loop_c_triples:
  "subseq (triples_of (fst (loop_c self exchange_name a b cs)))
          (map (\<lambda>c. (a, b, c)) (filter (\<lambda>c. b < c) cs))"
proof (induction cs)
  case Nil
  then show ?case by (simp add: triples_of_def)
next
  case (Cons c cs)
  show ?case
  proof (cases "c \<le> b")
    case True
    then show ?thesis using Cons.IH by simp
  next
    case False
    then have "b < c" by simp
    then show ?thesis
      using then_run_subseq [OF triangle_body_triples [of self exchange_name a b c] Cons.IH]
      by simp
  qed
qed

lemma loop_b_triples:
  "subseq (triples_of (fst (loop_b self exchange_name coins a bs)))
          (concat (map (\<lambda>b. map (\<lambda>c. (a, b, c)) (filter (\<lambda>c. b < c) coins))
                       (filter (\<lambda>b. a < b) bs)))"
proof (induction bs)
  case Nil
  then show ?case by (simp add: triples_of_def)
next
  case (Cons b bs)
  show ?case
  proof (cases "a \<ge> b")
    case True
    then show ?thesis using Cons.IH by simp
  next
    case False
    then have "a < b" by simp
    then show ?thesis
      using then_run_subseq [OF loop_c_triples [of self exchange_name a b coins] Cons.IH]
      by simp
  qed
qed

lemma loop_a_triples:
  "subseq (triples_of (fst (loop_a self exchange_name coins as)))
          (concat (map (\<lambda>a. concat (map (\<lambda>b. map (\<lambda>c. (a, b, c)) (filter (\<lambda>c. b < c) coins))
                                           (filter (\<lambda>b. a < b) coins)))
                       as))"
proof (induction as)
  case Nil
  then show ?case by (simp add: triples_of_def)
next
  case (Cons a as)
  show ?case
    using then_run_subseq [OF loop_b_triples [of self exchange_name coins a coins] Cons.IH]
    by simp
qed

lemma distinct_concat_map:
  assumes "distinct xs"
    and "\<And>x. x \<in> set xs \<Longrightarrow> distinct (f x)"
    and "\<And>x y. x \<in> set xs \<Longrightarrow> y \<in> set xs \<Longrightarrow> x \<noteq> y \<Longrightarrow> set (f x) \<inter> set (f y) = {}"
  shows "distinct (concat (map f xs))"
  using assms
proof (induction xs)
  case Nil
  then show ?case by simp
next
  case (Cons x xs)
  have "distinct (concat (map f xs))"
    using Cons by simp
  moreover have "distinct (f x)" using Cons.prems(2) by simp
  moreover have "set (f x) \<inter> set (f y) = {}" if "y \<in> set xs" for y
    using Cons.prems(1) Cons.prems(3) [of x y] that by auto
  ultimately show ?case by auto
qed

lemma set_ordered_triples:
  "set (ordered_triples coins) =
     {(a, b, c). a \<in> set coins \<and> b \<in> set coins \<and> c \<in> set coins \<and> a < b \<and> b < c}"
  by (auto simp: ordered_triples_def)

lemma distinct_ordered_triples:
  assumes "distinct coins"
  shows "distinct (ordered_triples coins)"
  unfolding ordered_triples_def
proof (rule distinct_concat_map [OF assms])
  fix a
  show "distinct (concat (map (\<lambda>b. map (\<lambda>c. (a, b, c)) (filter (\<lambda>c. b < c) coins))
                                    (filter (\<lambda>b. a < b) coins)))"
  proof (rule distinct_concat_map)
    show "distinct (filter (\<lambda>b. a < b) coins)" using assms by simp
  next
    fix b
    show "distinct (map (\<lambda>c. (a, b, c)) (filter (\<lambda>c. b < c) coins))"
      using assms by (simp add: distinct_map inj_on_def)
  next
    fix b b' :: string
    assume "b \<noteq> b'"
    then show "set (map (\<lambda>c. (a, b, c)) (filter (\<lambda>c. b < c) coins))
             \<inter> set (map (\<lambda>c. (a, b', c)) (filter (\<lambda>c. b' < c) coins)) = {}"
      by auto
  qed
next
  fix a a' :: string
  assume "a \<noteq> a'"
  then show "set (concat (map (\<lambda>b. map (\<lambda>c. (a, b, c)) (filter (\<lambda>c. b < c) coins))
                                    (filter (\<lambda>b. a < b) coins)))
           \<inter> set (concat (map (\<lambda>b. map (\<lambda>c. (a', b, c)) (filter (\<lambda>c. b < c) coins))
                                    (filter (\<lambda>b. a' < b) coins))) = {}"
    by auto
qed

lemma subseq_distinct: "subseq xs ys \<Longrightarrow> distinct ys \<Longrightarrow> distinct xs"
  using subseqs_distinctD [of xs ys] by simp

lemma subseq_set: "subseq xs ys \<Longrightarrow> set xs \<subseteq> set ys"
  by (auto elim: list_emb_set)

lemma distinct_set_add: "distinct xs \<Longrightarrow> distinct (set_add x xs)"
  by (simp add: set_add_def)

lemma set_set_add: "set (set_add x xs) = insert x (set xs)"
  by (auto simp: set_add_def)

lemma collect_coins_result:
  "collect_coins symbols acc = Inr coins \<Longrightarrow> distinct acc \<Longrightarrow>
     distinct coins \<and> set coins = set acc \<union> set (concat (map coins_of_symbol symbols))"
proof (induction symbols arbitrary: acc)
  case Nil
  then show ?case by simp
next
  case (Cons symbol rest)
  show ?case
  proof (cases "CHR ''/'' \<in> set symbol")
    case True
    with Cons.prems(1) obtain base quote where sp: "split_on CHR ''/'' symbol = [base, quote]"
      and rest: "collect_coins rest (set_add quote (set_add base acc)) = Inr coins"
      by (auto split: list.splits)
    have "distinct (set_add quote (set_add base acc))"
      using Cons.prems(2) by (simp add: distinct_set_add)
    from Cons.IH [OF rest this] sp show ?thesis
      by (auto simp: set_set_add coins_of_symbol_def)
  next
    case False
    then have "count_list symbol CHR ''/'' = 0" by (simp add: count_list_0_iff)
    then have "length (split_on CHR ''/'' symbol) = 1" by (simp add: length_split_on)
    then have "coins_of_symbol symbol = []"
      by (auto simp: coins_of_symbol_def split: list.splits)
    with False Cons show ?thesis by simp
  qed
qed

lemma sorted_triple_unique:
  fixes a b c a' b' c' :: "'a :: linorder"
  assumes "a < b" "b < c" "a' < b'" "b' < c'" "{a, b, c} = {a', b', c'}"
  shows "a = a' \<and> b = b' \<and> c = c'"
proof -
  have "a \<in> {a', b', c'}" "b \<in> {a', b', c'}" "c \<in> {a', b', c'}"
    "a' \<in> {a, b, c}" "b' \<in> {a, b, c}" "c' \<in> {a, b, c}"
    using assms(5) by auto
  with assms(1-4) show ?thesis by auto
qed

lemma length_triples_of:
  "filter is_opportunity evs = [] \<Longrightarrow> length (triples_of evs) = length evs"
proof (induction evs)
  case Nil
  then show ?case by (simp add: triples_of_def)
next
  case (Cons e evs)
  then show ?case by (cases e) (auto simp: triples_of_def split: if_splits)
qed

lemma detect_triangular_triples:
  "\<exists>coins. distinct coins
      \<and> set coins \<subseteq> venue_coins self exchange_name \<inter> set common_coins
      \<and> subseq (triples_of (fst (snd (detect_triangular_opportunities self exchange_name))))
                (ordered_triples coins)"
proof (cases "length (books_at (orderbooks self) exchange_name) < 3")
  case True
  then have "triples_of (fst (snd (detect_triangular_opportunities self exchange_name))) = []"
    by (simp add: detect_triangular_opportunities_def triples_of_def)
  then show ?thesis
    by (intro exI [of _ "[]"]) simp
next
  case False
  show ?thesis
  proof (cases "collect_coins (map fst (books_at (orderbooks self) exchange_name)) []")
    case (Inl e)
    with False have "triples_of (fst (snd (detect_triangular_opportunities self exchange_name))) = []"
      by (simp add: detect_triangular_opportunities_def triples_of_def)
    then show ?thesis
      by (intro exI [of _ "[]"]) simp
  next
    case (Inr all_coins)
    from collect_coins_result [OF Inr]
    have d: "distinct all_coins" and s: "set all_coins = venue_coins self exchange_name"
      by (simp_all add: venue_coins_def comp_def)
    have run: "fst (snd (detect_triangular_opportunities self exchange_name)) =
        fst (loop_a self exchange_name (restrict_coins all_coins) (restrict_coins all_coins))"
      using False Inr by (simp add: detect_triangular_opportunities_def Let_def)
    have "distinct (restrict_coins all_coins)"
      using d by (simp add: restrict_coins_def)
    moreover have "set (restrict_coins all_coins) \<subseteq> venue_coins self exchange_name \<inter> set common_coins"
      using s by (auto simp: restrict_coins_def)
    moreover have "subseq (triples_of (fst (snd (detect_triangular_opportunities self exchange_name))))
                (ordered_triples (restrict_coins all_coins))"
      unfolding run ordered_triples_def by (rule loop_a_triples)
    ultimately show ?thesis by blast
  qed
qed

text \<open>
  Claim C5: every triple that the triangle detector evaluates consists of coins of
  the exchange that are in the list of common coins, with a < b < c; no triple is
  evaluated twice, and no two evaluated triples have the same set of coins. Every
  event of the detector is the line of one evaluated triple.
\<close>

theorem C5_triples_once:
  assumes "evs = fst (snd (detect_triangular_opportunities self exchange_name))"
  shows "length (triples_of evs) = length evs
       \<and> distinct (triples_of evs)
       \<and> (\<forall>t \<in> set (triples_of evs).
             case t of (a, b, c) \<Rightarrow>
               a < b \<and> b < c \<and> {a, b, c} \<subseteq> venue_coins self exchange_name \<inter> set common_coins)
       \<and> (\<forall>t \<in> set (triples_of evs). \<forall>t' \<in> set (triples_of evs).
             coin_set t = coin_set t' \<longrightarrow> t = t')"
proof -
  obtain coins where d: "distinct coins"
    and sub: "set coins \<subseteq> venue_coins self exchange_name \<inter> set common_coins"
    and emb: "subseq (triples_of evs) (ordered_triples coins)"
    using detect_triangular_triples [of self exchange_name] assms by blast
  have len: "length (triples_of evs) = length evs"
    using assms by (simp add: length_triples_of detect_triangular_no_opportunity)
  have dist: "distinct (triples_of evs)"
    using subseq_distinct [OF emb distinct_ordered_triples [OF d]] .
  have mem: "a \<in> set coins \<and> b \<in> set coins \<and> c \<in> set coins \<and> a < b \<and> b < c"
    if "(a, b, c) \<in> set (triples_of evs)" for a b c
    using subseq_set [OF emb] that by (auto simp: set_ordered_triples)
  have ordered: "\<forall>t \<in> set (triples_of evs).
             case t of (a, b, c) \<Rightarrow>
               a < b \<and> b < c \<and> {a, b, c} \<subseteq> venue_coins self exchange_name \<inter> set common_coins"
  proof
    fix t assume t: "t \<in> set (triples_of evs)"
    obtain a b c where "t = (a, b, c)" by (cases t)
    with t mem [of a b c] sub show "case t of (a, b, c) \<Rightarrow>
               a < b \<and> b < c \<and> {a, b, c} \<subseteq> venue_coins self exchange_name \<inter> set common_coins"
      by auto
  qed
  have once: "\<forall>t \<in> set (triples_of evs). \<forall>t' \<in> set (triples_of evs).
             coin_set t = coin_set t' \<longrightarrow> t = t'"
  proof (intro ballI impI)
    fix t t' assume t: "t \<in> set (triples_of evs)" and t': "t' \<in> set (triples_of evs)"
      and eq: "coin_set t = coin_set t'"
    obtain a b c where abc: "t = (a, b, c)" by (cases t)
    obtain a' b' c' where abc': "t' = (a', b', c')" by (cases t')
    have "a < b" "b < c" using mem [of a b c] t abc by auto
    moreover have "a' < b'" "b' < c'" using mem [of a' b' c'] t' abc' by auto
    moreover have "{a, b, c} = {a', b', c'}" using eq abc abc' by (simp add: coin_set_def)
    ultimately show "t = t'"
      using sorted_triple_unique [of a b c a' b' c'] abc abc' by simp
  qed
  from len dist ordered once show ?thesis by blast
qed

lemma example_triangle_run:
  "snd (detect_triangular_opportunities (bot_with m example_triangle_books) ''binance'')
       = ([LogTriangle ''binance'' ''BTC'' ''ETH'' ''USDT'' ''ETH/BTC'' ''ETH/USDT'' ''BTC/USDT''], None)"
  by (simp add: detect_triangular_opportunities_def bot_with_def example_triangle_books_def
          books_at_def set_add_def restrict_coins_def common_coins_def triangle_body_def
          find_pair_def evaluate_triangle_def then_run_def Let_def)

theorem C5_witness:
  "triples_of (fst (snd (detect_triangular_opportunities (bot_with (2 / 10) example_triangle_books)
                           ''binance''))) = [(''BTC'', ''ETH'', ''USDT'')]
   \<and> distinct (triples_of (fst (snd (detect_triangular_opportunities
                                       (bot_with (2 / 10) example_triangle_books) ''binance''))))
   \<and> ''BTC'' < ''ETH'' \<and> ''ETH'' < ''USDT''
   \<and> {''BTC'', ''ETH'', ''USDT''}
        \<subseteq> venue_coins (bot_with (2 / 10) example_triangle_books) ''binance'' \<inter> set common_coins"
proof -
  have run: "triples_of (fst (snd (detect_triangular_opportunities
                (bot_with (2 / 10) example_triangle_books) ''binance'')))
             = [(''BTC'', ''ETH'', ''USDT'')]"
    by (simp add: example_triangle_run triples_of_def)
  show ?thesis
    using run C5_triples_once [OF refl, of "bot_with (2 / 10) example_triangle_books" "''binance''"]
    by simp
qed

text \<open>What the detector does for a triple whose three pairs exist.\<close>

lemma then_run_ok: "snd (then_run r1 r2) = None \<longleftrightarrow> snd r1 = None \<and> snd r2 = None"
  by (cases "snd r1") (auto simp: then_run_def)

lemma then_run_fst_ok: "snd r1 = None \<Longrightarrow> fst (then_run r1 r2) = fst r1 @ fst r2"
  by (simp add: then_run_def)

lemma loop_c_member:
  "snd (loop_c self exchange_name a b cs) = None \<Longrightarrow> c \<in> set cs \<Longrightarrow> b < c \<Longrightarrow>
   e \<in> set (fst (triangle_body self exchange_name a b c)) \<Longrightarrow>
     e \<in> set (fst (loop_c self exchange_name a b cs))"
proof (induction cs)
  case Nil
  then show ?case by simp
next
  case (Cons x cs)
  show ?case
  proof (cases "x \<le> b")
    case True
    with Cons show ?thesis by auto
  next
    case False
    with Cons.prems(1) have ok: "snd (triangle_body self exchange_name a b x) = None"
      "snd (loop_c self exchange_name a b cs) = None"
      by (simp_all add: then_run_ok)
    show ?thesis
      using False Cons.IH [OF ok(2)] Cons.prems(2-4) ok(1)
      by (auto simp: then_run_fst_ok)
  qed
qed

lemma loop_b_member:
  "snd (loop_b self exchange_name coins a bs) = None \<Longrightarrow> b \<in> set bs \<Longrightarrow> a < b \<Longrightarrow>
   e \<in> set (fst (loop_c self exchange_name a b coins)) \<Longrightarrow>
     e \<in> set (fst (loop_b self exchange_name coins a bs))"
proof (induction bs)
  case Nil
  then show ?case by simp
next
  case (Cons x bs)
  show ?case
  proof (cases "a \<ge> x")
    case True
    with Cons show ?thesis by auto
  next
    case False
    with Cons.prems(1) have ok: "snd (loop_c self exchange_name a x coins) = None"
      "snd (loop_b self exchange_name coins a bs) = None"
      by (simp_all add: then_run_ok)
    show ?thesis
      using False Cons.IH [OF ok(2)] Cons.prems(2-4) ok(1)
      by (auto simp: then_run_fst_ok)
  qed
qed

lemma loop_b_ok_loop_c:
  "snd (loop_b self exchange_name coins a bs) = None \<Longrightarrow> b \<in> set bs \<Longrightarrow> a < b \<Longrightarrow>
     snd (loop_c self exchange_name a b coins) = None"
  by (induction bs) (auto simp: then_run_ok split: if_splits)

lemma loop_a_member:
  "snd (loop_a self exchange_name coins as) = None \<Longrightarrow> a \<in> set as \<Longrightarrow>
   e \<in> set (fst (loop_b self exchange_name coins a coins)) \<Longrightarrow>
     e \<in> set (fst (loop_a self exchange_name coins as))"
proof (induction as)
  case Nil
  then show ?case by simp
next
  case (Cons x as)
  from Cons.prems(1) have ok: "snd (loop_b self exchange_name coins x coins) = None"
    "snd (loop_a self exchange_name coins as) = None"
    by (simp_all add: then_run_ok)
  show ?case
    using Cons.IH [OF ok(2)] Cons.prems(2-3) ok(1)
    by (auto simp: then_run_fst_ok)
qed

lemma loop_a_ok_loop_b:
  "snd (loop_a self exchange_name coins as) = None \<Longrightarrow> a \<in> set as \<Longrightarrow>
     snd (loop_b self exchange_name coins a coins) = None"
  by (induction as) (auto simp: then_run_ok)

lemma find_pair_in_found:
  "find_pair_in symbols coin1 coin2 = Inr (Some p) \<Longrightarrow>
     p \<in> set symbols \<and> p \<noteq> []
     \<and> (split_on CHR ''/'' p = [coin1, coin2] \<or> split_on CHR ''/'' p = [coin2, coin1])"
  by (induction symbols) (auto split: if_splits list.splits)

lemma find_pair_found:
  assumes "find_pair self exchange_name coin1 coin2 = Inr (Some p)"
  shows "\<exists>bk. map_of (books_at (orderbooks self) exchange_name) p = Some bk"
    and "p \<noteq> []"
    and "coin1 \<in> venue_coins self exchange_name" and "coin2 \<in> venue_coins self exchange_name"
proof -
  note f = find_pair_in_found [OF assms [unfolded find_pair_def]]
  from f have "p \<in> fst ` set (books_at (orderbooks self) exchange_name)" by simp
  then show "\<exists>bk. map_of (books_at (orderbooks self) exchange_name) p = Some bk"
    by (metis map_of_eq_None_iff not_Some_eq)
  from f show "p \<noteq> []" by simp
  from f have "coin1 \<in> set (coins_of_symbol p) \<and> coin2 \<in> set (coins_of_symbol p)"
    by (auto simp: coins_of_symbol_def)
  moreover from f obtain kv where "kv \<in> set (books_at (orderbooks self) exchange_name)" "fst kv = p"
    by auto
  ultimately show "coin1 \<in> venue_coins self exchange_name" "coin2 \<in> venue_coins self exchange_name"
    by (auto simp: venue_coins_def)
qed

lemma triangle_body_logs:
  assumes "find_pair self exchange_name a b = Inr (Some pair_ab)"
    and "find_pair self exchange_name b c = Inr (Some pair_bc)"
    and "find_pair self exchange_name c a = Inr (Some pair_ca)"
  shows "triangle_body self exchange_name a b c =
           ([LogTriangle exchange_name a b c pair_ab pair_bc pair_ca], None)"
proof -
  obtain b1 b2 b3 where
    "map_of (books_at (orderbooks self) exchange_name) pair_ab = Some b1"
    "map_of (books_at (orderbooks self) exchange_name) pair_bc = Some b2"
    "map_of (books_at (orderbooks self) exchange_name) pair_ca = Some b3"
    using find_pair_found(1) [OF assms(1)] find_pair_found(1) [OF assms(2)]
      find_pair_found(1) [OF assms(3)] by blast
  then show ?thesis
    using assms find_pair_found(2) [OF assms(1)] find_pair_found(2) [OF assms(2)]
      find_pair_found(2) [OF assms(3)]
    by (simp add: triangle_body_def evaluate_triangle_def Let_def)
qed

lemma detect_triangular_logs:
  assumes ok: "snd (snd (detect_triangular_opportunities self exchange_name)) = None"
    and len: "3 \<le> length (books_at (orderbooks self) exchange_name)"
    and common: "a \<in> set common_coins" "b \<in> set common_coins" "c \<in> set common_coins"
    and ord: "a < b" "b < c"
    and ab: "find_pair self exchange_name a b = Inr (Some pair_ab)"
    and bc: "find_pair self exchange_name b c = Inr (Some pair_bc)"
    and ca: "find_pair self exchange_name c a = Inr (Some pair_ca)"
  shows "LogTriangle exchange_name a b c pair_ab pair_bc pair_ca
           \<in> set (fst (snd (detect_triangular_opportunities self exchange_name)))"
proof -
  let ?e = "LogTriangle exchange_name a b c pair_ab pair_bc pair_ca"
  from ok len obtain all_coins where
    cc: "collect_coins (map fst (books_at (orderbooks self) exchange_name)) [] = Inr all_coins"
    by (cases "collect_coins (map fst (books_at (orderbooks self) exchange_name)) []")
       (auto simp: detect_triangular_opportunities_def Let_def)
  let ?coins = "restrict_coins all_coins"
  have run: "snd (detect_triangular_opportunities self exchange_name) =
      loop_a self exchange_name ?coins ?coins"
    using len cc by (simp add: detect_triangular_opportunities_def Let_def)
  from collect_coins_result [OF cc]
  have "set all_coins = venue_coins self exchange_name"
    by (simp add: venue_coins_def comp_def)
  then have mem: "a \<in> set ?coins" "b \<in> set ?coins" "c \<in> set ?coins"
    using common find_pair_found(3,4) [OF ab] find_pair_found(3,4) [OF bc]
    by (simp_all add: restrict_coins_def)
  have oka: "snd (loop_a self exchange_name ?coins ?coins) = None"
    using ok run by simp
  have okb: "snd (loop_b self exchange_name ?coins a ?coins) = None"
    using loop_a_ok_loop_b [OF oka mem(1)] .
  have okc: "snd (loop_c self exchange_name a b ?coins) = None"
    using loop_b_ok_loop_c [OF okb mem(2) ord(1)] .
  have "?e \<in> set (fst (triangle_body self exchange_name a b c))"
    by (simp add: triangle_body_logs [OF ab bc ca])
  from loop_c_member [OF okc mem(3) ord(2) this]
  have "?e \<in> set (fst (loop_c self exchange_name a b ?coins))" .
  from loop_b_member [OF okb mem(2) ord(1) this]
  have "?e \<in> set (fst (loop_b self exchange_name ?coins a ?coins))" .
  from loop_a_member [OF oka mem(1) this]
  show ?thesis using run by simp
qed

lemma three_pairs_three_books:
  assumes ord: "a < b" "b < c"
    and ab: "find_pair self exchange_name a b = Inr (Some pair_ab)"
    and bc: "find_pair self exchange_name b c = Inr (Some pair_bc)"
    and ca: "find_pair self exchange_name c a = Inr (Some pair_ca)"
  shows "3 \<le> length (books_at (orderbooks self) exchange_name)"
proof -
  let ?keys = "map fst (books_at (orderbooks self) exchange_name)"
  note fab = find_pair_in_found [OF ab [unfolded find_pair_def]]
  note fbc = find_pair_in_found [OF bc [unfolded find_pair_def]]
  note fca = find_pair_in_found [OF ca [unfolded find_pair_def]]
  have ne: "a \<noteq> b" "b \<noteq> c" "a \<noteq> c" using ord by auto
  have "pair_ab \<noteq> pair_bc" using fab fbc ne by auto
  moreover have "pair_bc \<noteq> pair_ca" using fbc fca ne by auto
  moreover have "pair_ab \<noteq> pair_ca" using fab fca ne by auto
  ultimately have "card {pair_ab, pair_bc, pair_ca} = 3" by simp
  moreover have "{pair_ab, pair_bc, pair_ca} \<subseteq> set ?keys"
    using fab fbc fca by simp
  then have "card {pair_ab, pair_bc, pair_ca} \<le> card (set ?keys)"
    by (intro card_mono) simp_all
  moreover have "card (set ?keys) \<le> length ?keys" by (rule card_length)
  ultimately show ?thesis by simp
qed

text \<open>
  Claim C1, amended: for every state and exchange the triangle detector emits no
  opportunity and calls no execution, and what it does is the same for every
  configuration, hence for every minimum profit: it computes no conversion factor,
  multiplier or net percentage. For a triple a < b < c of common coins whose three
  pairs it finds, in a run that raises nothing, it logs the potential triangle.
\<close>

theorem C1_triangle_detector_only_logs:
  "filter is_opportunity (fst (snd (detect_triangular_opportunities self exchange_name))) = []
   \<and> snd (detect_triangular_opportunities (self\<lparr>config := cfg\<rparr>) exchange_name) =
       snd (detect_triangular_opportunities self exchange_name)
   \<and> (snd (snd (detect_triangular_opportunities self exchange_name)) = None
        \<and> a \<in> set common_coins \<and> b \<in> set common_coins \<and> c \<in> set common_coins
        \<and> a < b \<and> b < c
        \<and> find_pair self exchange_name a b = Inr (Some pair_ab)
        \<and> find_pair self exchange_name b c = Inr (Some pair_bc)
        \<and> find_pair self exchange_name c a = Inr (Some pair_ca)
      \<longrightarrow> LogTriangle exchange_name a b c pair_ab pair_bc pair_ca
            \<in> set (fst (snd (detect_triangular_opportunities self exchange_name))))"
proof (intro conjI impI)
  show "filter is_opportunity (fst (snd (detect_triangular_opportunities self exchange_name))) = []"
    by (rule detect_triangular_no_opportunity)
next
  show "snd (detect_triangular_opportunities (self\<lparr>config := cfg\<rparr>) exchange_name) =
       snd (detect_triangular_opportunities self exchange_name)"
    by (rule detect_triangular_config)
next
  assume h: "snd (snd (detect_triangular_opportunities self exchange_name)) = None
        \<and> a \<in> set common_coins \<and> b \<in> set common_coins \<and> c \<in> set common_coins
        \<and> a < b \<and> b < c
        \<and> find_pair self exchange_name a b = Inr (Some pair_ab)
        \<and> find_pair self exchange_name b c = Inr (Some pair_bc)
        \<and> find_pair self exchange_name c a = Inr (Some pair_ca)"
  then have len: "3 \<le> length (books_at (orderbooks self) exchange_name)"
    using three_pairs_three_books [of a b c self exchange_name pair_ab pair_bc pair_ca] by simp
  from h len show "LogTriangle exchange_name a b c pair_ab pair_bc pair_ca
            \<in> set (fst (snd (detect_triangular_opportunities self exchange_name)))"
    using detect_triangular_logs [of self exchange_name a b c pair_ab pair_bc pair_ca] by simp
qed

theorem C1_witness:
  "snd (snd (detect_triangular_opportunities (bot_with (2 / 10) example_triangle_books) ''binance''))
     = None
   \<and> ''BTC'' \<in> set common_coins \<and> ''ETH'' \<in> set common_coins \<and> ''USDT'' \<in> set common_coins
   \<and> ''BTC'' < ''ETH'' \<and> ''ETH'' < ''USDT''
   \<and> find_pair (bot_with (2 / 10) example_triangle_books) ''binance'' ''BTC'' ''ETH''
       = Inr (Some ''ETH/BTC'')
   \<and> find_pair (bot_with (2 / 10) example_triangle_books) ''binance'' ''ETH'' ''USDT''
       = Inr (Some ''ETH/USDT'')
   \<and> find_pair (bot_with (2 / 10) example_triangle_books) ''binance'' ''USDT'' ''BTC''
       = Inr (Some ''BTC/USDT'')
   \<and> LogTriangle ''binance'' ''BTC'' ''ETH'' ''USDT'' ''ETH/BTC'' ''ETH/USDT'' ''BTC/USDT''
       \<in> set (fst (snd (detect_triangular_opportunities
                          (bot_with (2 / 10) example_triangle_books) ''binance'')))
   \<and> filter is_opportunity
       (fst (snd (detect_triangular_opportunities
                    (bot_with (2 / 10) example_triangle_books) ''binance''))) = []"
proof -
  have ok: "snd (snd (detect_triangular_opportunities (bot_with (2 / 10) example_triangle_books)
                        ''binance'')) = None"
    by (simp add: example_triangle_run)
  have common: "''BTC'' \<in> set common_coins \<and> ''ETH'' \<in> set common_coins
      \<and> ''USDT'' \<in> set common_coins"
    by (simp add: common_coins_def)
  have ord: "''BTC'' < ''ETH'' \<and> ''ETH'' < ''USDT''" by simp
  have pairs: "find_pair (bot_with (2 / 10) example_triangle_books) ''binance'' ''BTC'' ''ETH''
       = Inr (Some ''ETH/BTC'')
   \<and> find_pair (bot_with (2 / 10) example_triangle_books) ''binance'' ''ETH'' ''USDT''
       = Inr (Some ''ETH/USDT'')
   \<and> find_pair (bot_with (2 / 10) example_triangle_books) ''binance'' ''USDT'' ''BTC''
       = Inr (Some ''BTC/USDT'')"
    by (simp add: find_pair_def bot_with_def example_triangle_books_def books_at_def)
  show ?thesis
    using ok common ord pairs
      C1_triangle_detector_only_logs [of "bot_with (2 / 10) example_triangle_books" "''binance''"
        CONFIG "''BTC''" "''ETH''" "''USDT''" "''ETH/BTC''" "''ETH/USDT''" "''BTC/USDT''"]
    by blast
qed

end
